theory Spec2Isabelle
  imports Complex_Main "HOL-Library.AList"
begin

section \<open>JavaScript primitives used by the scanner back end\<close>

text \<open>
  The scanner back end exists in several variants. The two that are modelled here are
  the server in \<^verbatim>\<open>src/unnamed/part_000\<close> (definitions with suffix \<open>0\<close>) and the refactored
  server in \<^verbatim>\<open>src/unnamed/part_001\<close> (suffix \<open>1\<close>). Functions that are textually the same in
  both files carry no suffix. Two further variants of the server are embedded in
  \<^verbatim>\<open>src/components/ScanResultDisplay.tsx\<close>; they are not modelled.

  Strings are \<^typ>\<open>string\<close>. A JavaScript \<^verbatim>\<open>Set\<close> of strings is a duplicate-free list in
  insertion order (what \<^verbatim>\<open>Array.from\<close> returns); a \<^verbatim>\<open>Map\<close> is an association list in
  insertion order: \<^verbatim>\<open>get\<close> is \<^const>\<open>map_of\<close>, \<^verbatim>\<open>set\<close> is \<^const>\<open>AList.update\<close> (replace
  in place, or append a new key), and mutating the object that \<^verbatim>\<open>get\<close> returns is
  \<^const>\<open>AList.map_entry\<close>.
\<close>

definition startsWith :: "string \<Rightarrow> string \<Rightarrow> bool" where
  "startsWith s p = (take (length p) s = p)"

definition endsWith :: "string \<Rightarrow> string \<Rightarrow> bool" where
  "endsWith s p = (length p \<le> length s \<and> drop (length s - length p) s = p)"

text \<open>\<^verbatim>\<open>s.includes(p)\<close>: \<open>p\<close> occurs in \<open>s\<close> as a contiguous substring.\<close>

fun str_includes :: "string \<Rightarrow> string \<Rightarrow> bool" where
  "str_includes [] p = (p = [])"
| "str_includes (c # cs) p = (startsWith (c # cs) p \<or> str_includes cs p)"

text \<open>\<^verbatim>\<open>set.add(x)\<close> and \<^verbatim>\<open>set.has(x)\<close>.\<close>

definition set_add :: "'a \<Rightarrow> 'a list \<Rightarrow> 'a list" where
  "set_add x xs = (if x \<in> set xs then xs else xs @ [x])"

definition map_has :: "('k \<times> 'v) list \<Rightarrow> 'k \<Rightarrow> bool" where
  "map_has m k = (map_of m k \<noteq> None)"

text \<open>\<^verbatim>\<open>a || b\<close> on strings: the empty string is falsy.\<close>

definition or_else :: "string \<Rightarrow> string \<Rightarrow> string" where
  "or_else a b = (if a = [] then b else a)"

text \<open>Decimal rendering of a non-negative integer, as a template literal prints it.\<close>

definition digit_char :: "nat \<Rightarrow> char" where
  "digit_char d = ''0123456789'' ! (d mod 10)"

fun showNat :: "nat \<Rightarrow> string" where
  "showNat n = (if n < 10 then [digit_char n] else showNat (n div 10) @ [digit_char (n mod 10)])"

declare showNat.simps [simp del]

definition showInt :: "int \<Rightarrow> string" where
  "showInt i = (if i < 0 then CHR ''-'' # showNat (nat (- i)) else showNat (nat i))"

section \<open>Numbers\<close>

text \<open>
  A JavaScript number is an IEEE 754 binary64 value. A finite one is modelled by the real
  number it denotes, and the result of an arithmetic operation is the exact result rounded
  to the nearest binary64 value, ties to the even significand. \<open>binade x\<close> is the exponent
  \<open>e\<close> with \<open>2 ^ e \<le> x < 2 ^ (e + 1)\<close> of a positive \<open>x\<close>; \<open>ulp x\<close> is the distance of the binary64
  values around \<open>x\<close> (53 significant bits, exponents from -1022, subnormal numbers below).
  Overflow is decided where a result is used (\<open>times1000\<close>).
\<close>

function binade :: "real \<Rightarrow> int" where
  "binade x = (if x \<le> 0 then 0
               else if 2 \<le> x then binade (x / 2) + 1
               else if x < 1 then binade (x * 2) - 1
               else 0)"
  by pat_completeness auto

termination
proof (relation "measure (\<lambda>x. if x < 1 then nat \<lceil>- log 2 x\<rceil> else nat \<lfloor>log 2 x\<rfloor>)")
  show "wf (measure (\<lambda>x. if x < 1 then nat \<lceil>- log 2 x\<rceil> else nat \<lfloor>log 2 x\<rfloor>))" by simp
next
  fix x :: real
  assume "\<not> x \<le> 0" "2 \<le> x"
  then have "log 2 (x / 2) = log 2 x - 1" "1 \<le> log 2 x"
    by (simp_all add: log_divide le_log_iff)
  then show "(x / 2, x) \<in> measure (\<lambda>x. if x < 1 then nat \<lceil>- log 2 x\<rceil> else nat \<lfloor>log 2 x\<rfloor>)"
    using \<open>2 \<le> x\<close> by auto
next
  fix x :: real
  assume a: "\<not> x \<le> 0" "\<not> 2 \<le> x" "x < 1"
  then have l: "log 2 (x * 2) = log 2 x + 1" "log 2 x < 0"
    by (simp_all add: log_mult)
  show "(x * 2, x) \<in> measure (\<lambda>x. if x < 1 then nat \<lceil>- log 2 x\<rceil> else nat \<lfloor>log 2 x\<rfloor>)"
  proof (cases "x * 2 < 1")
    case True
    then show ?thesis using a l by (simp; linarith)
  next
    case False
    then have "0 \<le> log 2 (x * 2)" using a by simp
    moreover have "log 2 (x * 2) < 1" using a by (simp add: log_less_iff)
    ultimately have "\<lfloor>log 2 (x * 2)\<rfloor> = 0" by linarith
    then show ?thesis using False a l by (simp; linarith)
  qed
qed

declare binade.simps [simp del]

definition roundTiesToEven :: "real \<Rightarrow> int" where
  "roundTiesToEven x =
     (let f = \<lfloor>x\<rfloor>; r = x - of_int f
      in if r < 1 / 2 then f else if 1 / 2 < r then f + 1 else if even f then f else f + 1)"

definition ulp :: "real \<Rightarrow> real" where
  "ulp x = 2 powi (max (binade \<bar>x\<bar>) (- 1022) - 52)"

definition binary64 :: "real \<Rightarrow> real" where
  "binary64 x = of_int (roundTiesToEven (x / ulp x)) * ulp x"

text \<open>
  The values of a number: the finite ones, the two infinities and \<^verbatim>\<open>NaN\<close>.
  \<open>times1000 v\<close> is the product \<^verbatim>\<open>v * 1000\<close>: a rounded result of magnitude \<open>2 ^ 1024\<close> or
  more overflows to an infinity.
\<close>

datatype number = Num real | PosInf | NegInf | NaN

definition times1000 :: "number \<Rightarrow> number" where
  "times1000 v =
     (case v of
        Num x \<Rightarrow>
          let r = binary64 (x * 1000)
          in if 2 ^ 1024 \<le> r then PosInf else if r \<le> - (2 ^ 1024) then NegInf else Num r
      | PosInf \<Rightarrow> PosInf
      | NegInf \<Rightarrow> NegInf
      | NaN \<Rightarrow> NaN)"

text \<open>
  \<^verbatim>\<open>Math.round\<close> gives the nearest integer, halves upwards; on a binary64 argument its result
  is exact. \<^verbatim>\<open>new Date(v).getTime()\<close> is the time value of the date: \<^verbatim>\<open>NaN\<close> (here \<open>None\<close>,
  an invalid date) when \<open>v\<close> is not finite or lies outside the range of \<^verbatim>\<open>Date\<close>, which is
  8.64e15 milliseconds either side of the epoch, and \<open>v\<close> truncated towards zero otherwise.
\<close>

definition Math_round :: "real \<Rightarrow> int" where
  "Math_round x = \<lfloor>x + 1 / 2\<rfloor>"

definition Date_getTime :: "number \<Rightarrow> int option" where
  "Date_getTime v =
     (case v of
        Num x \<Rightarrow> if 8640000000000000 < \<bar>x\<bar> then None
                 else Some (if 0 \<le> x then \<lfloor>x\<rfloor> else - \<lfloor>- x\<rfloor>)
      | PosInf \<Rightarrow> None
      | NegInf \<Rightarrow> None
      | NaN \<Rightarrow> None)"

section \<open>Cookies and the expiry label\<close>

text \<open>The fields of a Puppeteer cookie that the back end reads; \<open>expires\<close> is a number, the
  expiry date in seconds since the epoch.\<close>

record Cookie =
  name :: string
  domain :: string
  path :: string
  expires :: number
  session :: bool
  httpOnly :: bool
  secure :: bool

text \<open>
  \<^verbatim>\<open>parseFloat(x.toFixed(1))\<close> followed by the template literal: \<^verbatim>\<open>toFixed(1)\<close> takes the
  integer \<open>n\<close> for which \<open>n / 10\<close> is nearest to the binary64 value \<open>x\<close>, the larger one of
  two, and the literal prints \<open>n / 10\<close> without a trailing \<^verbatim>\<open>.0\<close>. The argument of
  \<open>showTenths\<close> is the number of tenths. (A number of tenths of up to fifteen digits is
  printed digit by digit; the years between two time values of \<^verbatim>\<open>Date\<close> have at most seven.)
\<close>

definition showTenths :: "int \<Rightarrow> string" where
  "showTenths t = showInt (t div 10) @ (if t mod 10 = 0 then [] else CHR ''.'' # showNat (nat (t mod 10)))"

definition yearsLabel :: "real \<Rightarrow> string" where
  "yearsLabel x =
     (let years10 = Math_round (x * 10)
      in showTenths years10 @ '' year'' @ (if 10 < years10 then ''s'' else ''''))"

text \<open>
  \<^verbatim>\<open>getHumanReadableExpiry\<close> (part_000 lines 231-243, part_001 lines 91-103). The clock
  \<^verbatim>\<open>new Date().getTime()\<close> is the parameter \<open>now\<close>, in milliseconds. Every product,
  difference and quotient is rounded to binary64. With an invalid \<^verbatim>\<open>expiryDate\<close> the
  difference is \<^verbatim>\<open>NaN\<close>: every comparison is false, \<^verbatim>\<open>toFixed\<close> gives \<^verbatim>\<open>"NaN"\<close>, and the
  function returns \<^verbatim>\<open>NaN year\<close>.
\<close>

definition getHumanReadableExpiry :: "int \<Rightarrow> Cookie \<Rightarrow> string" where
  "getHumanReadableExpiry now puppeteerCookie =
     (if session puppeteerCookie \<or> expires puppeteerCookie = Num (- 1) then ''Session''
      else
        (case Date_getTime (times1000 (expires puppeteerCookie)) of
           None \<Rightarrow> ''NaN year''
         | Some expiryDate \<Rightarrow>
             let diffSeconds = binary64 (binary64 (of_int (expiryDate - now)) / 1000)
             in if diffSeconds < 0 then ''Expired''
                else if diffSeconds < 3600 then
                  showInt (Math_round (binary64 (diffSeconds / 60))) @ '' minutes''
                else if diffSeconds < 86400 then
                  showInt (Math_round (binary64 (diffSeconds / 3600))) @ '' hours''
                else if diffSeconds < 86400 * 30 then
                  showInt (Math_round (binary64 (diffSeconds / 86400))) @ '' days''
                else if diffSeconds < 86400 * 365 then
                  showInt (Math_round (binary64 (diffSeconds / (86400 * 30)))) @ '' months''
                else yearsLabel (binary64 (diffSeconds / (86400 * 365)))))"

section \<open>Cross-visit aggregation\<close>

text \<open>
  The canonical record of one technology. In part_000 it is \<^verbatim>\<open>{ states, data }\<close>, in part_001
  \<^verbatim>\<open>{ states, data, pageUrls }\<close>.
\<close>

record 'd entry0 =
  states :: "string list"
  data :: 'd

record 'd entry1 = "'d entry0" +
  pageUrls :: "string list"

record NetworkRequest =
  req_url :: string
  req_hostname :: string

record LocalStorageItem =
  ls_origin :: string
  ls_key :: string
  ls_value :: string
  ls_pageUrl :: string

text \<open>The key of a cookie: \<^verbatim>\<open>`${item.name}|${item.domain}|${item.path}`\<close>.\<close>

definition cookieKey :: "Cookie \<Rightarrow> string" where
  "cookieKey item = name item @ ''|'' @ domain item @ ''|'' @ path item"

text \<open>\<^verbatim>\<open>s.split(sep)\<close> for a one-character separator, \<^verbatim>\<open>s.split('|')\<close>, and an array read printed
  by a template literal.\<close>

fun js_split :: "char \<Rightarrow> string \<Rightarrow> string list" where
  "js_split sep [] = [[]]"
| "js_split sep (c # cs) =
     (if c = sep then [] # js_split sep cs
      else (case js_split sep cs of [] \<Rightarrow> [[c]] | p # ps \<Rightarrow> (c # p) # ps))"

definition split_bar :: "string \<Rightarrow> string list" where
  "split_bar s = js_split CHR ''|'' s"

definition nth_or_undefined :: "string list \<Rightarrow> nat \<Rightarrow> string" where
  "nth_or_undefined xs i = (if i < length xs then xs ! i else ''undefined'')"

text \<open>
  The key of a tracker string in part_000:
  \<^verbatim>\<open>`${item.split('|')[0]}|${item.split('|')[1]}`\<close>.
\<close>

definition trackerKey0 :: "string \<Rightarrow> string" where
  "trackerKey0 item =
     nth_or_undefined (split_bar item) 0 @ ''|'' @ nth_or_undefined (split_bar item) 1"

text \<open>
  \<^verbatim>\<open>processItems\<close>. The flag \<^verbatim>\<open>isCookie\<close> only selects the key expression, and every call
  passes the flag that fits the type of its items; the model takes the selected key
  expression \<open>keyOf\<close> in its place: \<^const>\<open>cookieKey\<close> for \<^verbatim>\<open>isCookie = true\<close>, and for
  \<^verbatim>\<open>false\<close> \<^const>\<open>trackerKey0\<close> in part_000 and \<^const>\<open>req_url\<close> (\<^verbatim>\<open>item.url\<close>) in part_001. The first
  definition of each pair is the body of the \<^verbatim>\<open>forEach\<close> callback.
\<close>

definition processItem0 ::
  "('d \<Rightarrow> string) \<Rightarrow> string \<Rightarrow> (string \<times> 'd entry0) list \<Rightarrow> 'd \<Rightarrow> (string \<times> 'd entry0) list" where
  "processItem0 keyOf state m item =
     (let key = keyOf item;
          m1 = (if \<not> map_has m key then AList.update key \<lparr>states = [], data = item\<rparr> m else m)
      in AList.map_entry key (\<lambda>e. e\<lparr>states := set_add state (states e)\<rparr>) m1)"

definition processItems0 ::
  "('d \<Rightarrow> string) \<Rightarrow> (string \<times> 'd entry0) list \<Rightarrow> 'd list \<Rightarrow> string \<Rightarrow> (string \<times> 'd entry0) list" where
  "processItems0 keyOf m items state = foldl (processItem0 keyOf state) m items"

definition processItem1 ::
  "('d \<Rightarrow> string) \<Rightarrow> string \<Rightarrow> string \<Rightarrow> (string \<times> 'd entry1) list \<Rightarrow> 'd \<Rightarrow> (string \<times> 'd entry1) list" where
  "processItem1 keyOf state pageUrl m item =
     (let key = keyOf item;
          m1 = (if \<not> map_has m key
                then AList.update key \<lparr>states = [], data = item, pageUrls = []\<rparr> m else m);
          m2 = AList.map_entry key (\<lambda>e. e\<lparr>states := set_add state (states e)\<rparr>) m1
      in AList.map_entry key (\<lambda>e. e\<lparr>pageUrls := set_add pageUrl (pageUrls e)\<rparr>) m2)"

definition processItems1 ::
  "('d \<Rightarrow> string) \<Rightarrow> (string \<times> 'd entry1) list \<Rightarrow> 'd list \<Rightarrow> string \<Rightarrow> string
     \<Rightarrow> (string \<times> 'd entry1) list" where
  "processItems1 keyOf m items state pageUrl = foldl (processItem1 keyOf state pageUrl) m items"

text \<open>\<^verbatim>\<open>processLocalStorage\<close> (part_001), on the map \<^verbatim>\<open>allLocalStorageMap\<close>.\<close>

definition localStorageKey :: "LocalStorageItem \<Rightarrow> string" where
  "localStorageKey item = ls_origin item @ ''|'' @ ls_key item"

definition processLocalStorageItem ::
  "string \<Rightarrow> string \<Rightarrow> (string \<times> LocalStorageItem entry1) list \<Rightarrow> LocalStorageItem
     \<Rightarrow> (string \<times> LocalStorageItem entry1) list" where
  "processLocalStorageItem state pageUrl allLocalStorageMap item =
     (let key = localStorageKey item;
          m1 = (if \<not> map_has allLocalStorageMap key
                then AList.update key \<lparr>states = [], data = item, pageUrls = []\<rparr> allLocalStorageMap
                else allLocalStorageMap);
          m2 = AList.map_entry key (\<lambda>e. e\<lparr>states := set_add state (states e)\<rparr>) m1
      in AList.map_entry key (\<lambda>e. e\<lparr>pageUrls := set_add pageUrl (pageUrls e)\<rparr>) m2)"

definition processLocalStorage ::
  "(string \<times> LocalStorageItem entry1) list \<Rightarrow> LocalStorageItem list \<Rightarrow> string \<Rightarrow> string
     \<Rightarrow> (string \<times> LocalStorageItem entry1) list" where
  "processLocalStorage allLocalStorageMap items state pageUrl =
     foldl (processLocalStorageItem state pageUrl) allLocalStorageMap items"

text \<open>
  A sequence of merge calls, as the crawl loop issues them: each call carries its
  observations, the consent state and the page.
\<close>

record 'd mergeCall =
  mc_items :: "'d list"
  mc_state :: string
  mc_pageUrl :: string

definition mergeCalls0 ::
  "('d \<Rightarrow> string) \<Rightarrow> (string \<times> 'd entry0) list \<Rightarrow> 'd mergeCall list \<Rightarrow> (string \<times> 'd entry0) list" where
  "mergeCalls0 keyOf m calls =
     foldl (\<lambda>m c. processItems0 keyOf m (mc_items c) (mc_state c)) m calls"

definition mergeCalls1 ::
  "('d \<Rightarrow> string) \<Rightarrow> (string \<times> 'd entry1) list \<Rightarrow> 'd mergeCall list \<Rightarrow> (string \<times> 'd entry1) list" where
  "mergeCalls1 keyOf m calls =
     foldl (\<lambda>m c. processItems1 keyOf m (mc_items c) (mc_state c) (mc_pageUrl c)) m calls"

text \<open>
  Helper for the proofs: the record at key \<open>k\<close> already holds the state \<open>st\<close> (and, in
  part_001, the page \<open>pg\<close>).
\<close>

definition seen0 :: "(string \<times> 'd entry0) list \<Rightarrow> string \<Rightarrow> string \<Rightarrow> bool" where
  "seen0 m k st = (case map_of m k of None \<Rightarrow> False | Some e \<Rightarrow> st \<in> set (states e))"

definition seen1 :: "(string \<times> 'd entry1) list \<Rightarrow> string \<Rightarrow> string \<Rightarrow> string \<Rightarrow> bool" where
  "seen1 m k st pg =
     (case map_of m k of None \<Rightarrow> False | Some e \<Rightarrow> st \<in> set (states e) \<and> pg \<in> set (pageUrls e))"

text \<open>A cookie for the concrete examples below.\<close>

definition exampleCookie :: "string \<Rightarrow> string \<Rightarrow> bool \<Rightarrow> Cookie" where
  "exampleCookie n d s =
     \<lparr>name = n, domain = d, path = ''/'', expires = Num (- 1), session = True, httpOnly = False, secure = s\<rparr>"

text \<open>
  The local \<^verbatim>\<open>diffSeconds\<close> of \<^verbatim>\<open>getHumanReadableExpiry\<close> when the expiry date lies
  \<open>k\<close> milliseconds after the clock, for stating its buckets, and a cookie with an expiry
  date for the concrete examples.
\<close>

definition diffSecondsOf :: "int \<Rightarrow> real" where
  "diffSecondsOf k = binary64 (binary64 (of_int k) / 1000)"

text \<open>
  The number that the label of the minutes, hours, days or months bucket shows, for an
  expiry date \<open>k\<close> milliseconds after the clock and a unit of \<open>u\<close> seconds; and the
  statement that it is \<open>m\<close> at both ends of the time differences that lie nearest to \<open>m\<close>
  units, for a unit of \<open>2 * h\<close> milliseconds.
\<close>

definition shownUnits :: "real \<Rightarrow> int \<Rightarrow> int" where
  "shownUnits u k = Math_round (binary64 (diffSecondsOf k / u))"

definition halfUpAt :: "real \<Rightarrow> int \<Rightarrow> int \<Rightarrow> bool" where
  "halfUpAt u h m = (shownUnits u (2 * h * m - h) = m \<and> shownUnits u (2 * h * m + h - 1) = m)"

definition timedCookie :: "real \<Rightarrow> Cookie" where
  "timedCookie e =
     \<lparr>name = ''id'', domain = ''.example.com'', path = ''/'', expires = Num e, session = False,
        httpOnly = False, secure = False\<rparr>"

section \<open>Classification by the oracle\<close>

text \<open>
  One attempt of \<^verbatim>\<open>analyzeBatch\<close> asks the text-generation oracle and parses its answer.
  The oracle and \<^verbatim>\<open>JSON.parse\<close> are outside the program: an attempt either throws
  (the call fails, the text is empty, no JSON array is found, parsing fails) with a
  message, or yields the parsed array. The oracle of a scan is a function from the batch
  number and the attempt number to that outcome; nothing else is assumed about it.

  An element of the parsed array has the string fields that the response schema
  requires; a missing or empty field is the empty string, which is falsy. A parsed value
  that is not an array, or an element that is not an object, is not modelled.
\<close>

datatype 'a attempt = Failed string | Parsed "'a list"

record Analysis0 =
  a_key :: string
  a_category :: string
  a_purpose :: string
  a_complianceStatus :: string

record Analysis1 = Analysis0 +
  a_remediation :: string

text \<open>
  The retry loop of \<^verbatim>\<open>analyzeBatch\<close>: \<^verbatim>\<open>for (attempt = 0; attempt <= maxRetries; attempt++)\<close>,
  returning at the first parsed answer and rethrowing the error of the last attempt.
\<close>

function analyzeBatchFrom :: "(nat \<Rightarrow> 'a attempt) \<Rightarrow> nat \<Rightarrow> nat \<Rightarrow> nat \<Rightarrow> string + 'a list" where
  "analyzeBatchFrom call batchNum maxRetries attempt =
     (if attempt \<le> maxRetries then
        (case call attempt of
           Parsed parsedResult \<Rightarrow> Inr parsedResult
         | Failed message \<Rightarrow>
             if attempt = maxRetries then Inl message
             else analyzeBatchFrom call batchNum maxRetries (attempt + 1))
      else Inl (''Exhausted all retries for batch '' @ showNat (batchNum + 1)))"
  by pat_completeness auto
termination
  by (relation "measure (\<lambda>(call, batchNum, maxRetries, attempt). Suc maxRetries - attempt)") auto

declare analyzeBatchFrom.simps [simp del]

definition analyzeBatch :: "(nat \<Rightarrow> nat \<Rightarrow> 'a attempt) \<Rightarrow> nat \<Rightarrow> string + 'a list" where
  "analyzeBatch ai batchNum = analyzeBatchFrom (ai batchNum) batchNum 2 0"

text \<open>
  \<^verbatim>\<open>for (let i = 0; i < all.length; i += BATCH_SIZE) batches.push(all.slice(i, i + BATCH_SIZE))\<close>.
  \<^verbatim>\<open>BATCH_SIZE\<close> is the constant 40 in part_000 and 25 in part_001; the size 0, with which
  the source loop would not advance, does not occur.
\<close>

function batchesOf :: "nat \<Rightarrow> 'a list \<Rightarrow> 'a list list" where
  "batchesOf BATCH_SIZE xs =
     (if xs = [] \<or> BATCH_SIZE = 0 then []
      else take BATCH_SIZE xs # batchesOf BATCH_SIZE (drop BATCH_SIZE xs))"
  by pat_completeness auto
termination
  by (relation "measure (\<lambda>(n, xs). length xs)") auto

declare batchesOf.simps [simp del]

text \<open>
  The loop over the batches. In part_000 (lines 633-649) a batch that still fails after
  its retries is logged and skipped; in part_001 (lines 438-443) the error leaves the loop.
\<close>

fun batchLoop0 :: "(nat \<Rightarrow> nat \<Rightarrow> 'a attempt) \<Rightarrow> nat \<Rightarrow> 'b list list \<Rightarrow> 'a list \<Rightarrow> 'a list" where
  "batchLoop0 ai index [] aggregatedAnalysis = aggregatedAnalysis"
| "batchLoop0 ai index (batch # rest) aggregatedAnalysis =
     (case analyzeBatch ai index of
        Inr batchAnalysis \<Rightarrow> batchLoop0 ai (Suc index) rest (aggregatedAnalysis @ batchAnalysis)
      | Inl error \<Rightarrow> batchLoop0 ai (Suc index) rest aggregatedAnalysis)"

fun batchLoop1 ::
  "(nat \<Rightarrow> nat \<Rightarrow> 'a attempt) \<Rightarrow> nat \<Rightarrow> 'b list list \<Rightarrow> 'a list \<Rightarrow> string + 'a list" where
  "batchLoop1 ai index [] aggregatedAnalysis = Inr aggregatedAnalysis"
| "batchLoop1 ai index (batch # rest) aggregatedAnalysis =
     (case analyzeBatch ai index of
        Inr batchAnalysis \<Rightarrow> batchLoop1 ai (Suc index) rest (aggregatedAnalysis @ batchAnalysis)
      | Inl error \<Rightarrow> Inl error)"

text \<open>\<^verbatim>\<open>new Map(aggregatedAnalysis.map(item => [item.key, item]))\<close>: a later entry replaces
  an earlier one with the same key.\<close>

definition analysisMapOf :: "('z Analysis0_scheme) list \<Rightarrow> (string \<times> 'z Analysis0_scheme) list" where
  "analysisMapOf aggregatedAnalysis = foldl (\<lambda>m item. AList.update (a_key item) item m) [] aggregatedAnalysis"

text \<open>\<^verbatim>\<open>analyzed?.field || fallback\<close>.\<close>

definition field_or :: "'a option \<Rightarrow> ('a \<Rightarrow> string) \<Rightarrow> string \<Rightarrow> string" where
  "field_or analyzed field fallback =
     (case analyzed of None \<Rightarrow> fallback | Some a \<Rightarrow> or_else (field a) fallback)"

text \<open>The tables \<^verbatim>\<open>knownTrackerDomains\<close> of part_000 and of part_001.\<close>

definition knownTrackerDomains0 :: "string list" where
  "knownTrackerDomains0 =
    [''google-analytics.com'', ''googletagmanager.com'', ''analytics.google.com'',
     ''doubleclick.net'', ''googleadservices.com'', ''googlesyndication.com'',
     ''connect.facebook.net'', ''facebook.com/tr'', ''c.clarity.ms'', ''clarity.ms'',
     ''hotjar.com'', ''hotjar.io'', ''hjid.hotjar.com'', ''hubspot.com'', ''hs-analytics.net'',
     ''track.hubspot.com'', ''linkedin.com/px'', ''ads.linkedin.com'', ''twitter.com/i/ads'',
     ''ads-twitter.com'', ''bing.com/ads'', ''semrush.com'', ''optimizely.com'', ''vwo.com'',
     ''crazyegg.com'', ''taboola.com'', ''outbrain.com'', ''criteo.com'', ''addthis.com'',
     ''sharethis.com'', ''tiqcdn.com'']"

definition knownTrackerDomains1 :: "string list" where
  "knownTrackerDomains1 =
    [''google-analytics.com'', ''analytics.google.com'', ''googletagmanager.com'',
     ''matomo.org'', ''piwik.pro'', ''matomo.cloud'', ''c.clarity.ms'', ''clarity.ms'',
     ''hotjar.com'', ''hotjar.io'', ''hjid.hotjar.com'', ''static.hotjar.com'',
     ''hubspot.com'', ''hs-analytics.net'', ''track.hubspot.com'', ''js.hs-analytics.net'',
     ''mixpanel.com'', ''api.mixpanel.com'', ''segment.com'', ''api.segment.io'',
     ''cdn.segment.com'', ''amplitude.com'', ''api.amplitude.com'', ''fullstory.com'',
     ''rs.fullstory.com'', ''logrocket.com'', ''cdn.logrocket.com'', ''vwo.com'',
     ''dev.visualwebsiteoptimizer.com'', ''optimizely.com'', ''log.optimizely.com'',
     ''crazyegg.com'', ''script.crazyegg.com'', ''semrush.com'', ''mouseflow.com'',
     ''heap.io'', ''heapanalytics.com'', ''pendo.io'', ''cdn.pendo.io'', ''doubleclick.net'',
     ''googleadservices.com'', ''googlesyndication.com'', ''ad.doubleclick.net'',
     ''connect.facebook.net'', ''facebook.com/tr'', ''facebook.net'', ''linkedin.com/px'',
     ''ads.linkedin.com'', ''px.ads.linkedin.com'', ''twitter.com/i/ads'', ''ads-twitter.com'',
     ''t.co'', ''bing.com/ads'', ''bat.bing.com'', ''pinterest.com/ads'', ''ct.pinterest.com'',
     ''snap.com/tr'', ''sc-static.net'', ''tiktok.com/pixel'', ''analytics.tiktok.com'',
     ''ads.yahoo.com'', ''analytics.yahoo.com'', ''yandex.ru/metrika'', ''mc.yandex.ru'',
     ''adroll.com'', ''s.adroll.com'', ''criteo.com'', ''static.criteo.net'', ''taboola.com'',
     ''trc.taboola.com'', ''outbrain.com'', ''widgets.outbrain.com'', ''quantserve.com'',
     ''edge.quantserve.com'', ''scorecardresearch.com'', ''b.scorecardresearch.com'',
     ''adform.net'', ''track.adform.net'', ''appnexus.com'', ''ib.adnxs.com'',
     ''rubiconproject.com'', ''fastlane.rubiconproject.com'', ''intercom.io'',
     ''widget.intercom.io'', ''drift.com'', ''js.driftt.com'', ''addthis.com'',
     ''s7.addthis.com'', ''sharethis.com'', ''w.sharethis.com'', ''tiqcdn.com'']"

section \<open>The report\<close>

datatype CookieParty = First | Third

record CookieInfo0 =
  ci_key :: string
  ci_name :: string
  ci_provider :: string
  ci_expiry :: string
  ci_party :: CookieParty
  ci_isHttpOnly :: bool
  ci_isSecure :: bool
  ci_complianceStatus :: string
  ci_category :: string
  ci_purpose :: string

record CookieInfo1 = CookieInfo0 +
  ci_remediation :: string
  ci_pagesFound :: "string list"

text \<open>In part_000 a tracker is the string \<^verbatim>\<open>`${trackerDomain}|${reqUrl}`\<close>; the second
  element of its split is \<^verbatim>\<open>undefined\<close> (here \<open>None\<close>) when the string has no bar.\<close>

record TrackerInfo0 =
  tr_key :: string
  tr_url :: "string option"
  tr_provider :: string
  tr_category :: string
  tr_complianceStatus :: string

record TrackerInfo1 =
  tk_key :: string
  tk_hostname :: string
  tk_complianceStatus :: string
  tk_category :: string
  tk_remediation :: string
  tk_pagesFound :: "string list"

record LocalStorageInfo =
  lsi_key :: string
  lsi_origin :: string
  lsi_storageKey :: string
  lsi_complianceStatus :: string
  lsi_category :: string
  lsi_remediation :: string
  lsi_purpose :: string
  lsi_pagesFound :: "string list"

record ThirdPartyDomain =
  tp_hostname :: string
  tp_count :: nat
  tp_pagesFound :: "string list"

record ComplianceInfo =
  riskLevel :: string
  assessment :: string

record Compliance =
  gdpr :: ComplianceInfo
  ccpa :: ComplianceInfo

record GoogleConsentV2Status =
  detected :: bool
  status :: string

record ScanResultCommon =
  compliance :: Compliance
  screenshotBase64 :: string
  consentBannerDetected :: bool
  pagesScannedCount :: nat

record ScanResultData0 = ScanResultCommon +
  cookies :: "CookieInfo0 list"
  trackers :: "TrackerInfo0 list"

record ScanResultData1 = ScanResultCommon +
  uniqueCookies :: "CookieInfo1 list"
  uniqueTrackers :: "TrackerInfo1 list"
  uniqueLocalStorage :: "LocalStorageInfo list"
  thirdPartyDomains :: "ThirdPartyDomain list"
  pages :: "string list"
  googleConsentV2 :: GoogleConsentV2Status

text \<open>What the crawl loop leaves behind for the analysis.\<close>

record Crawled =
  screenshot :: string
  consentBannerFound :: bool
  visitedUrls :: "string list"

record Crawled0 = Crawled +
  allCookieMap0 :: "(string \<times> Cookie entry0) list"
  allTrackerMap0 :: "(string \<times> string entry0) list"

record Crawled1 = Crawled +
  allCookieMap1 :: "(string \<times> Cookie entry1) list"
  allNetworkRequestMap :: "(string \<times> NetworkRequest entry1) list"
  allLocalStorageMap :: "(string \<times> LocalStorageItem entry1) list"
  googleConsentV2Status :: GoogleConsentV2Status

text \<open>
  First or third party (part_000 lines 730-734, part_001 lines 466-470):
  \<^verbatim>\<open>domain = c.data.domain.startsWith('.') ? c.data.domain : `.${c.data.domain}`\<close>,
  \<^verbatim>\<open>rootDomain = `.${scannedUrlHostname.replace(/^www\./, '')}`\<close>,
  \<^verbatim>\<open>party: domain.endsWith(rootDomain) ? 'First' : 'Third'\<close>.
\<close>

definition stripWww :: "string \<Rightarrow> string" where
  "stripWww h = (if startsWith h ''www.'' then drop 4 h else h)"

definition cookieParty :: "string \<Rightarrow> string \<Rightarrow> CookieParty" where
  "cookieParty scannedUrlHostname cookieDomain =
     (let dotted = (if startsWith cookieDomain ''.'' then cookieDomain else ''.'' @ cookieDomain);
          rootDomain = ''.'' @ stripWww scannedUrlHostname
      in if endsWith dotted rootDomain then First else Third)"

text \<open>The party rule of the fallback report of part_000 (line 660).\<close>

definition fallbackParty :: "string \<Rightarrow> CookieParty" where
  "fallbackParty cookieDomain = (if startsWith cookieDomain ''.'' then Third else First)"

subsection \<open>part_000\<close>

definition fallbackCookie0 :: "int \<Rightarrow> Cookie entry0 \<Rightarrow> CookieInfo0" where
  "fallbackCookie0 now c =
     \<lparr>ci_key = cookieKey (data c), ci_name = name (data c), ci_provider = domain (data c),
      ci_expiry = getHumanReadableExpiry now (data c),
      ci_party = fallbackParty (domain (data c)),
      ci_isHttpOnly = httpOnly (data c), ci_isSecure = secure (data c),
      ci_complianceStatus = ''Unknown'', ci_category = ''Unknown'',
      ci_purpose = ''Analysis failed - manual review required''\<rparr>"

definition fallbackTracker0 :: "string entry0 \<Rightarrow> TrackerInfo0" where
  "fallbackTracker0 t =
     (let parts = split_bar (data t)
      in \<lparr>tr_key = data t, tr_url = (if 1 < length parts then Some (parts ! 1) else None),
          tr_provider = hd parts, tr_category = ''Unknown'', tr_complianceStatus = ''Unknown''\<rparr>)"

definition finalEnrichedCookie0 ::
  "(string \<times> Analysis0) list \<Rightarrow> string \<Rightarrow> int \<Rightarrow> Cookie entry0 \<Rightarrow> CookieInfo0" where
  "finalEnrichedCookie0 analysisMap scannedUrlHostname now c =
     (let key = cookieKey (data c);
          analyzed = map_of analysisMap key
      in \<lparr>ci_key = key, ci_name = name (data c), ci_provider = domain (data c),
          ci_expiry = getHumanReadableExpiry now (data c),
          ci_party = cookieParty scannedUrlHostname (domain (data c)),
          ci_isHttpOnly = httpOnly (data c), ci_isSecure = secure (data c),
          ci_complianceStatus = field_or analyzed a_complianceStatus ''Unknown'',
          ci_category = field_or analyzed a_category ''Unknown'',
          ci_purpose = field_or analyzed a_purpose ''No purpose determined.''\<rparr>)"

definition finalEnrichedTracker0 :: "(string \<times> Analysis0) list \<Rightarrow> string entry0 \<Rightarrow> TrackerInfo0" where
  "finalEnrichedTracker0 analysisMap t =
     (let parts = split_bar (data t);
          key = data t;
          analyzed = map_of analysisMap key
      in \<lparr>tr_key = key, tr_url = (if 1 < length parts then Some (parts ! 1) else None),
          tr_provider = hd parts,
          tr_category = field_or analyzed a_category ''Unknown'',
          tr_complianceStatus = field_or analyzed a_complianceStatus ''Unknown''\<rparr>)"

definition noTechnologyCompliance :: Compliance where
  "noTechnologyCompliance =
     \<lparr>gdpr = \<lparr>riskLevel = ''Low'', assessment = ''No cookies or trackers were detected.''\<rparr>,
      ccpa = \<lparr>riskLevel = ''Low'', assessment = ''No cookies or trackers were detected.''\<rparr>\<rparr>"

definition fallbackCompliance :: Compliance where
  "fallbackCompliance =
     \<lparr>gdpr = \<lparr>riskLevel = ''Medium'',
              assessment = ''AI analysis failed - manual privacy review recommended.''\<rparr>,
      ccpa = \<lparr>riskLevel = ''Medium'',
              assessment = ''AI analysis failed - manual privacy review recommended.''\<rparr>\<rparr>"

text \<open>The response of the \<^verbatim>\<open>catch\<close> block of the route: status 500 with a message.\<close>

definition scanFailed0 :: "string \<Rightarrow> string \<Rightarrow> string" where
  "scanFailed0 url message =
     (if str_includes message ''JSON''
      then ''An AI analysis step failed due to invalid data format. This can happen with complex sites. Please try again. Details: '' @ message
      else ''Failed to scan '' @ url @ ''. '' @ message)"

definition scanFailed1 :: "string \<Rightarrow> string \<Rightarrow> string" where
  "scanFailed1 url message = ''Failed to scan '' @ url @ ''. '' @ message"

text \<open>
  The analysis phase of \<^verbatim>\<open>/api/scan\<close> in part_000 (lines 516-753), after the crawl loop.
  \<open>ai\<close> is the oracle of the batches, \<open>complianceCall\<close> the outcome of the final
  risk-assessment request (\<open>Inl\<close> the message of the error it throws). The result is the
  JSON report (\<open>Inr\<close>) or the message of the 500 response (\<open>Inl\<close>). The source reads the
  clock once for every cookie; the model uses one reading \<open>now\<close> for all of them.
\<close>

definition aggregatedAnalysis0 :: "(nat \<Rightarrow> nat \<Rightarrow> Analysis0 attempt) \<Rightarrow> Crawled0 \<Rightarrow> Analysis0 list" where
  "aggregatedAnalysis0 ai cr =
     (let allItemsToAnalyze = map Inl (map snd (allCookieMap0 cr)) @ map Inr (map snd (allTrackerMap0 cr))
      in batchLoop0 ai 0 (batchesOf 40 allItemsToAnalyze) [])"

definition scanAnalysis0 ::
  "string \<Rightarrow> string \<Rightarrow> int \<Rightarrow> (nat \<Rightarrow> nat \<Rightarrow> Analysis0 attempt) \<Rightarrow> string + Compliance \<Rightarrow> Crawled0
     \<Rightarrow> string + ScanResultData0" where
  "scanAnalysis0 url scannedUrlHostname now ai complianceCall cr =
     (if allCookieMap0 cr = [] \<and> allTrackerMap0 cr = [] then
        Inr \<lparr>compliance = noTechnologyCompliance, screenshotBase64 = screenshot cr,
             consentBannerDetected = consentBannerFound cr,
             pagesScannedCount = length (visitedUrls cr), cookies = [], trackers = []\<rparr>
      else
        let aggregatedAnalysis = aggregatedAnalysis0 ai cr
        in if aggregatedAnalysis = [] then
             Inr \<lparr>compliance = fallbackCompliance, screenshotBase64 = screenshot cr,
                  consentBannerDetected = consentBannerFound cr,
                  pagesScannedCount = length (visitedUrls cr),
                  cookies = map (fallbackCookie0 now) (map snd (allCookieMap0 cr)),
                  trackers = map fallbackTracker0 (map snd (allTrackerMap0 cr))\<rparr>
           else
             (case complianceCall of
                Inl message \<Rightarrow> Inl (scanFailed0 url message)
              | Inr complianceAnalysis \<Rightarrow>
                  let analysisMap = analysisMapOf aggregatedAnalysis
                  in Inr \<lparr>compliance = complianceAnalysis, screenshotBase64 = screenshot cr,
                          consentBannerDetected = consentBannerFound cr,
                          pagesScannedCount = length (visitedUrls cr),
                          cookies = map (finalEnrichedCookie0 analysisMap scannedUrlHostname now)
                                      (map snd (allCookieMap0 cr)),
                          trackers = map (finalEnrichedTracker0 analysisMap)
                                       (map snd (allTrackerMap0 cr))\<rparr>))"

subsection \<open>part_001\<close>

definition uniqueCookie1 ::
  "(string \<times> Analysis1) list \<Rightarrow> string \<Rightarrow> int \<Rightarrow> Cookie entry1 \<Rightarrow> CookieInfo1" where
  "uniqueCookie1 analysisMap scannedUrlHostname now c =
     (let key = cookieKey (data c);
          analyzed = map_of analysisMap key
      in \<lparr>ci_key = key, ci_name = name (data c), ci_provider = domain (data c),
          ci_expiry = getHumanReadableExpiry now (data c),
          ci_party = cookieParty scannedUrlHostname (domain (data c)),
          ci_isHttpOnly = httpOnly (data c), ci_isSecure = secure (data c),
          ci_complianceStatus = field_or analyzed a_complianceStatus ''Unknown'',
          ci_category = field_or analyzed a_category ''Unknown'',
          ci_purpose = field_or analyzed a_purpose ''No purpose determined.'',
          ci_remediation = field_or analyzed a_remediation ''Analysis incomplete.'',
          ci_pagesFound = pageUrls c\<rparr>)"

definition uniqueTracker1 :: "(string \<times> Analysis1) list \<Rightarrow> NetworkRequest entry1 \<Rightarrow> TrackerInfo1" where
  "uniqueTracker1 analysisMap t =
     (let key = req_url (data t);
          analyzed = map_of analysisMap key
      in \<lparr>tk_key = key, tk_hostname = req_hostname (data t),
          tk_complianceStatus = field_or analyzed a_complianceStatus ''Unknown'',
          tk_category = field_or analyzed a_category ''Unknown'',
          tk_remediation = field_or analyzed a_remediation ''Analysis incomplete.'',
          tk_pagesFound = pageUrls t\<rparr>)"

definition uniqueLocalStorage1 ::
  "(string \<times> Analysis1) list \<Rightarrow> LocalStorageItem entry1 \<Rightarrow> LocalStorageInfo" where
  "uniqueLocalStorage1 analysisMap s =
     (let key = localStorageKey (data s);
          analyzed = map_of analysisMap key
      in \<lparr>lsi_key = key, lsi_origin = ls_origin (data s), lsi_storageKey = ls_key (data s),
          lsi_complianceStatus = field_or analyzed a_complianceStatus ''Unknown'',
          lsi_category = field_or analyzed a_category ''Unknown'',
          lsi_remediation = field_or analyzed a_remediation ''Analysis incomplete.'',
          lsi_purpose = field_or analyzed a_purpose ''No purpose determined.'',
          lsi_pagesFound = pageUrls s\<rparr>)"

text \<open>\<^verbatim>\<open>thirdPartyDomainsMap\<close>: the pages of every request, grouped by host name.\<close>

definition thirdPartyDomainsOf :: "NetworkRequest entry1 list \<Rightarrow> ThirdPartyDomain list" where
  "thirdPartyDomainsOf reqs =
     map (\<lambda>(h, pageSet). \<lparr>tp_hostname = h, tp_count = length pageSet, tp_pagesFound = pageSet\<rparr>)
       (foldl (\<lambda>m req.
           let h = req_hostname (data req);
               m1 = (if \<not> map_has m h then AList.update h [] m else m)
           in AList.map_entry h (\<lambda>pgs. foldl (\<lambda>ps p. set_add p ps) pgs (pageUrls req)) m1)
         [] reqs)"

definition uniqueTrackersForAnalysis :: "Crawled1 \<Rightarrow> NetworkRequest entry1 list" where
  "uniqueTrackersForAnalysis cr =
     filter (\<lambda>v. list_ex (\<lambda>d. str_includes (req_hostname (data v)) d) knownTrackerDomains1)
       (map snd (allNetworkRequestMap cr))"

text \<open>
  The analysis phase of \<^verbatim>\<open>/api/scan\<close> in part_001 (lines 367-526). The items of a batch
  are cookies, trackers or storage items.
\<close>

datatype item1 =
  CookieEntry "Cookie entry1" | TrackerEntry "NetworkRequest entry1"
  | StorageEntry "LocalStorageItem entry1"

definition aggregatedAnalysis1 ::
  "(nat \<Rightarrow> nat \<Rightarrow> Analysis1 attempt) \<Rightarrow> Crawled1 \<Rightarrow> string + Analysis1 list" where
  "aggregatedAnalysis1 ai cr =
     (let allItemsToAnalyze =
            map CookieEntry (map snd (allCookieMap1 cr))
            @ map TrackerEntry (uniqueTrackersForAnalysis cr)
            @ map StorageEntry (map snd (allLocalStorageMap cr))
      in batchLoop1 ai 0 (batchesOf 25 allItemsToAnalyze) [])"

definition scanAnalysis1 ::
  "string \<Rightarrow> string \<Rightarrow> int \<Rightarrow> (nat \<Rightarrow> nat \<Rightarrow> Analysis1 attempt) \<Rightarrow> string + Compliance \<Rightarrow> Crawled1
     \<Rightarrow> string + ScanResultData1" where
  "scanAnalysis1 url scannedUrlHostname now ai complianceCall cr =
     (case aggregatedAnalysis1 ai cr of
        Inl message \<Rightarrow> Inl (scanFailed1 url message)
      | Inr aggregatedAnalysis \<Rightarrow>
          (case complianceCall of
             Inl message \<Rightarrow> Inl (scanFailed1 url message)
           | Inr complianceAnalysis \<Rightarrow>
               let analysisMap = analysisMapOf aggregatedAnalysis
               in Inr \<lparr>compliance = complianceAnalysis, screenshotBase64 = screenshot cr,
                       consentBannerDetected = consentBannerFound cr,
                       pagesScannedCount = length (visitedUrls cr),
                       uniqueCookies = map (uniqueCookie1 analysisMap scannedUrlHostname now)
                                         (map snd (allCookieMap1 cr)),
                       uniqueTrackers = map (uniqueTracker1 analysisMap) (uniqueTrackersForAnalysis cr),
                       uniqueLocalStorage = map (uniqueLocalStorage1 analysisMap)
                                              (map snd (allLocalStorageMap cr)),
                       thirdPartyDomains = thirdPartyDomainsOf (map snd (allNetworkRequestMap cr)),
                       pages = visitedUrls cr,
                       googleConsentV2 = googleConsentV2Status cr\<rparr>))"

section \<open>The verdict rules as the specification words them\<close>

text \<open>
  The specification's \<^verbatim>\<open>resolve(category, statesObserved)\<close>, written from its four rules in
  their order. It is not a function of the back end: there the rules are sentences of the
  prompt sent to the oracle. It is stated here to compare the report with it.
\<close>

definition spec_resolve :: "string \<Rightarrow> string list \<Rightarrow> string" where
  "spec_resolve category statesObserved =
     (if category = ''Necessary'' then ''Compliant''
      else if ''pre-consent'' \<in> set statesObserved then ''Pre-Consent Violation''
      else if ''post-rejection'' \<in> set statesObserved then ''Post-Rejection Violation''
      else ''Compliant'')"

section \<open>First and third party as the specification words it\<close>

text \<open>
  The glossary's registrable domain (\<^verbatim>\<open>example.com\<close> for \<^verbatim>\<open>www.example.com\<close> and for
  \<^verbatim>\<open>ads.example.com\<close>), taken as the last two labels of the host name, and the party that
  results when the cookie's domain is compared with it. Neither is a function of part_000
  or part_001; they are stated to compare \<^const>\<open>cookieParty\<close> with them.
\<close>

fun join_dots :: "string list \<Rightarrow> string" where
  "join_dots [] = []"
| "join_dots [p] = p"
| "join_dots (p # q # ps) = p @ ''.'' @ join_dots (q # ps)"

definition spec_registrableDomain :: "string \<Rightarrow> string" where
  "spec_registrableDomain h =
     (let domainParts = js_split CHR ''.'' h
      in join_dots (drop (length domainParts - 2) domainParts))"

definition spec_party :: "string \<Rightarrow> string \<Rightarrow> CookieParty" where
  "spec_party scannedUrlHostname cookieDomain =
     (let dotted = (if startsWith cookieDomain ''.'' then cookieDomain else ''.'' @ cookieDomain)
      in if endsWith dotted (''.'' @ spec_registrableDomain scannedUrlHostname) then First else Third)"

section \<open>The expiry buckets as the specification words them\<close>

text \<open>
  The unit of the bucket that the specification gives to a cookie: \<^verbatim>\<open>Session\<close> for a session
  cookie, and otherwise by the time left until the expiry date, here \<open>k\<close> milliseconds:
  minutes below one hour, hours below one day, days below 30 days, months below 365 days,
  years beyond. It is not a function of the back end; it is stated to compare
  \<^const>\<open>getHumanReadableExpiry\<close> with it.
\<close>

definition spec_expiryUnit :: "bool \<Rightarrow> int \<Rightarrow> string" where
  "spec_expiryUnit sessionCookie k =
     (if sessionCookie then ''Session''
      else if k < 3600000 then ''minute''
      else if k < 86400000 then ''hour''
      else if k < 86400000 * 30 then ''day''
      else if k < 86400000 * 365 then ''month''
      else ''year'')"

section \<open>Helpers for the statements, and concrete examples\<close>

text \<open>
  The status (category) that the report shows for a key, read off the aggregated answers
  of the oracle: that of the last answer with this key, or \<^verbatim>\<open>Unknown\<close>.
\<close>

definition echoedStatus :: "('z Analysis0_scheme) list \<Rightarrow> string \<Rightarrow> string" where
  "echoedStatus aggregatedAnalysis key =
     (case List.find (\<lambda>a. a_key a = key) (rev aggregatedAnalysis) of
        None \<Rightarrow> ''Unknown'' | Some a \<Rightarrow> or_else (a_complianceStatus a) ''Unknown'')"

definition echoedCategory :: "('z Analysis0_scheme) list \<Rightarrow> string \<Rightarrow> string" where
  "echoedCategory aggregatedAnalysis key =
     (case List.find (\<lambda>a. a_key a = key) (rev aggregatedAnalysis) of
        None \<Rightarrow> ''Unknown'' | Some a \<Rightarrow> or_else (a_category a) ''Unknown'')"

text \<open>
  A crawl of \<^verbatim>\<open>https://www.example.com\<close> that saw one cookie, \<^verbatim>\<open>_ga\<close> on
  \<^verbatim>\<open>.example.com\<close>, before consent and after rejection; an oracle that always fails; and
  oracles that answer with a given category and status for that cookie.
\<close>

definition exampleCrawled0 :: Crawled0 where
  "exampleCrawled0 =
     \<lparr>screenshot = '''', consentBannerFound = True, visitedUrls = [''https://www.example.com/''],
      allCookieMap0 = [(''_ga|.example.com|/'',
         \<lparr>states = [''pre-consent'', ''post-rejection''],
          data = exampleCookie ''_ga'' ''.example.com'' False\<rparr>)],
      allTrackerMap0 = []\<rparr>"

definition exampleCrawled1 :: Crawled1 where
  "exampleCrawled1 =
     \<lparr>screenshot = '''', consentBannerFound = True, visitedUrls = [''https://www.example.com/''],
      allCookieMap1 = [(''_ga|.example.com|/'',
         \<lparr>states = [''pre-consent'', ''post-rejection''],
          data = exampleCookie ''_ga'' ''.example.com'' False,
          pageUrls = [''https://www.example.com/'']\<rparr>)],
      allNetworkRequestMap = [], allLocalStorageMap = [],
      googleConsentV2Status = \<lparr>detected = False, status = ''Not Detected''\<rparr>\<rparr>"

definition exampleCompliance :: Compliance where
  "exampleCompliance =
     \<lparr>gdpr = \<lparr>riskLevel = ''High'', assessment = ''''\<rparr>,
      ccpa = \<lparr>riskLevel = ''High'', assessment = ''''\<rparr>\<rparr>"

definition failingOracle :: "nat \<Rightarrow> nat \<Rightarrow> 'a attempt" where
  "failingOracle batchNum attempt = Failed ''boom''"

definition answeringOracle0 :: "string \<Rightarrow> string \<Rightarrow> nat \<Rightarrow> nat \<Rightarrow> Analysis0 attempt" where
  "answeringOracle0 category verdict batchNum attempt =
     Parsed [\<lparr>a_key = ''_ga|.example.com|/'', a_category = category, a_purpose = '''',
              a_complianceStatus = verdict\<rparr>]"

definition answeringOracle1 :: "string \<Rightarrow> string \<Rightarrow> nat \<Rightarrow> nat \<Rightarrow> Analysis1 attempt" where
  "answeringOracle1 category verdict batchNum attempt =
     Parsed [\<lparr>a_key = ''_ga|.example.com|/'', a_category = category, a_purpose = '''',
              a_complianceStatus = verdict, a_remediation = ''''\<rparr>]"

section \<open>The page observation collector\<close>

text \<open>
  \<^verbatim>\<open>new URL(s)\<close> belongs to the platform: it is the parameter \<open>newURL\<close> of the functions
  below, \<open>None\<close> where the constructor throws. The fields are the ones the back end reads.
\<close>

record URL =
  url_href :: string
  url_hostname :: string
  url_protocol :: string

text \<open>
  What the browser does during one call of \<^verbatim>\<open>collectPageData\<close>: the requests it issues
  until \<^verbatim>\<open>page.reload\<close> settles or throws, whether the reload throws, the requests during
  the wait after it, and the outcome of each later read (\<open>None\<close>: the read throws).
\<close>

record PageRun =
  requestsDuringReload :: "string list"
  reloadOk :: bool
  requestsAfterReload :: "string list"
  pageCookies :: "Cookie list option"
  pageCookiesAgain :: "Cookie list option"

record PageRun1 = PageRun +
  cdpSessionCreated :: bool
  cdpCookies :: "Cookie list option"
  cdpDetachOk :: bool
  evaluated :: "(LocalStorageItem list \<times> GoogleConsentV2Status) option"

text \<open>The request listener of part_000 (lines 293-297).\<close>

definition requestListener0 :: "string list \<Rightarrow> string \<Rightarrow> string list" where
  "requestListener0 trackerSet reqUrl =
     (case List.find (\<lambda>d. str_includes reqUrl d) knownTrackerDomains0 of
        None \<Rightarrow> trackerSet
      | Some trackerDomain \<Rightarrow>
          if trackerDomain = [] then trackerSet
          else set_add (trackerDomain @ ''|'' @ reqUrl) trackerSet)"

text \<open>
  \<^verbatim>\<open>collectPageData\<close> of part_000 (lines 291-321). The \<^verbatim>\<open>catch\<close> block keeps the trackers
  captured so far and reads the cookies once more, with \<^verbatim>\<open>[]\<close> if that read throws too.
\<close>

definition collectPageData0 :: "PageRun \<Rightarrow> Cookie list \<times> string list" where
  "collectPageData0 run =
     (let captured = foldl requestListener0 [] (requestsDuringReload run);
          caught = (\<lambda>ts. (case pageCookiesAgain run of None \<Rightarrow> [] | Some cs \<Rightarrow> cs, ts))
      in if \<not> reloadOk run then caught captured
         else
           let captured = foldl requestListener0 captured (requestsAfterReload run)
           in (case pageCookies run of
                 None \<Rightarrow> caught captured
               | Some cs \<Rightarrow> (cs, captured)))"

text \<open>The request listener of part_001 (lines 161-168).\<close>

definition requestListener1 ::
  "(string \<Rightarrow> URL option) \<Rightarrow> string \<Rightarrow> NetworkRequest list \<Rightarrow> string \<Rightarrow> NetworkRequest list" where
  "requestListener1 newURL rootHostname networkRequests requestUrl =
     (case newURL requestUrl of
        None \<Rightarrow> networkRequests
      | Some reqUrl \<Rightarrow>
          if url_hostname reqUrl \<noteq> rootHostname
             \<and> (url_protocol reqUrl = ''http:'' \<or> url_protocol reqUrl = ''https:'')
          then networkRequests @ [\<lparr>req_url = requestUrl, req_hostname = url_hostname reqUrl\<rparr>]
          else networkRequests)"

record PageData1 =
  pd_cookies :: "Cookie list"
  pd_networkRequests :: "NetworkRequest list"
  pd_localStorageItems :: "LocalStorageItem list"
  pd_googleConsentV2 :: GoogleConsentV2Status

text \<open>
  \<^verbatim>\<open>collectPageData\<close> of part_001 (lines 151-223). Inside the \<^verbatim>\<open>try\<close> block the reload, the
  \<^verbatim>\<open>detach\<close> of the \<^verbatim>\<open>finally\<close> clause and \<^verbatim>\<open>page.evaluate\<close> can throw; the \<^verbatim>\<open>catch\<close> block
  returns the literal empty result.
\<close>

definition collectPageData1 :: "(string \<Rightarrow> URL option) \<Rightarrow> string \<Rightarrow> PageRun1 \<Rightarrow> PageData1" where
  "collectPageData1 newURL rootHostname run =
     (let caught = \<lparr>pd_cookies = [], pd_networkRequests = [], pd_localStorageItems = [],
                     pd_googleConsentV2 = \<lparr>detected = False, status = ''Error''\<rparr>\<rparr>;
          networkRequests = foldl (requestListener1 newURL rootHostname) []
                              (requestsDuringReload run)
      in if \<not> reloadOk run then caught
         else
           let networkRequests = foldl (requestListener1 newURL rootHostname) networkRequests
                                   (requestsAfterReload run);
               fromPage = (case pageCookies run of None \<Rightarrow> [] | Some cs \<Rightarrow> cs);
               collected = (if cdpSessionCreated run
                            then (case cdpCookies run of None \<Rightarrow> fromPage | Some cs \<Rightarrow> cs)
                            else fromPage)
           in if cdpSessionCreated run \<and> \<not> cdpDetachOk run then caught
              else (case evaluated run of
                      None \<Rightarrow> caught
                    | Some (localStorageItems, gcm) \<Rightarrow>
                        \<lparr>pd_cookies = collected, pd_networkRequests = networkRequests,
                         pd_localStorageItems = localStorageItems,
                         pd_googleConsentV2 = gcm\<rparr>))"

text \<open>A URL parser for the concrete examples: the host names of the URLs that occur there.\<close>

definition exampleURL :: "string \<Rightarrow> URL option" where
  "exampleURL s =
     (if s = ''https://www.example.com/'' \<or> s = ''https://www.example.com/about''
      then Some \<lparr>url_href = s, url_hostname = ''www.example.com'', url_protocol = ''https:''\<rparr>
      else if s = ''https://ads.example.com/''
      then Some \<lparr>url_href = s, url_hostname = ''ads.example.com'', url_protocol = ''https:''\<rparr>
      else if s = ''https://clarity.ms/t''
      then Some \<lparr>url_href = s, url_hostname = ''clarity.ms'', url_protocol = ''https:''\<rparr>
      else None)"

text \<open>A reload that issues a request to a tracker and then throws.\<close>

definition failingRun :: PageRun where
  "failingRun =
     \<lparr>requestsDuringReload = [''https://clarity.ms/t''], reloadOk = False,
      requestsAfterReload = [], pageCookies = None,
      pageCookiesAgain = Some [exampleCookie ''_ga'' ''.example.com'' False]\<rparr>"

definition failingRun1 :: PageRun1 where
  "failingRun1 =
     \<lparr>requestsDuringReload = [''https://clarity.ms/t''], reloadOk = False,
      requestsAfterReload = [], pageCookies = None,
      pageCookiesAgain = Some [exampleCookie ''_ga'' ''.example.com'' False],
      cdpSessionCreated = True, cdpCookies = None, cdpDetachOk = True, evaluated = None\<rparr>"

section \<open>The crawl loop\<close>

text \<open>
  The loop of \<^verbatim>\<open>/api/scan\<close> drives one page through the frontier. Of one visit the loop
  sees whether \<^verbatim>\<open>page.goto\<close> throws, whether a later step of the \<^verbatim>\<open>try\<close> block throws
  (the URL is then already in \<^verbatim>\<open>visitedUrls\<close>, and no link is pushed), and otherwise the
  anchors of the rendered page. The browser is the parameter \<open>browse\<close>, a function of the
  number of the iteration and of the URL, about which nothing is assumed. The merging of
  the observations of a visit is \<^verbatim>\<open>processItems\<close> above; it does not touch the frontier.

  The state carries, besides \<^verbatim>\<open>urlsToVisit\<close> and \<^verbatim>\<open>visitedUrls\<close>, the number of the
  iteration and a trace with one event for every call of \<^verbatim>\<open>page.goto\<close> (and whether it
  returned) and for every \<^verbatim>\<open>urlsToVisit.push\<close>, to state what the loop never does.
\<close>

record anchor =
  an_url :: "URL option"
  an_text :: string

datatype visit = GotoFailed | ScanFailed | Loaded "anchor list"

datatype event = Goto string bool | Enqueue string

text \<open>\<^verbatim>\<open>toLowerCase\<close> and \<^verbatim>\<open>trim\<close>, on ASCII.\<close>

definition lower_char :: "char \<Rightarrow> char" where
  "lower_char c =
     (let n = (of_char c :: nat) in if 65 \<le> n \<and> n \<le> 90 then char_of (n + 32) else c)"

definition toLowerCase :: "string \<Rightarrow> string" where
  "toLowerCase s = map lower_char s"

definition is_space :: "char \<Rightarrow> bool" where
  "is_space c = (let n = (of_char c :: nat) in n = 32 \<or> (9 \<le> n \<and> n \<le> 13))"

definition trim :: "string \<Rightarrow> string" where
  "trim s = rev (dropWhile is_space (rev (dropWhile is_space s)))"

subsection \<open>part_000 (lines 419-514)\<close>

record frontier0 =
  urlsToVisit0 :: "string list"
  visitedUrls0 :: "string list"
  events0 :: "event list"
  tick0 :: nat

definition initial0 :: "string \<Rightarrow> frontier0" where
  "initial0 u = \<lparr>urlsToVisit0 = [u], visitedUrls0 = [], events0 = [], tick0 = 0\<rparr>"

text \<open>The script run in the page: the links of the root host, without fragment.\<close>

definition extractLinks0 :: "string \<Rightarrow> anchor list \<Rightarrow> string list" where
  "extractLinks0 h anchors =
     foldl (\<lambda>links a.
        case an_url a of
          None \<Rightarrow> links
        | Some linkUrl \<Rightarrow>
            if url_hostname linkUrl = h
            then set_add (hd (js_split CHR ''#'' (url_href linkUrl))) links
            else links) [] anchors"

text \<open>\<^verbatim>\<open>if (!visitedUrls.has(link) && !urlsToVisit.includes(link)) urlsToVisit.push(link)\<close>.\<close>

definition pushLink0 :: "string list \<Rightarrow> string list \<times> event list \<Rightarrow> string \<Rightarrow> string list \<times> event list" where
  "pushLink0 visited qe link =
     (if link \<notin> set visited \<and> link \<notin> set (fst qe)
      then (fst qe @ [link], snd qe @ [Enqueue link]) else qe)"

text \<open>One iteration of the \<^verbatim>\<open>while\<close> loop, for a non-empty \<^verbatim>\<open>urlsToVisit\<close>.\<close>

definition crawlStep0 ::
  "(string \<Rightarrow> URL option) \<Rightarrow> (nat \<Rightarrow> string \<Rightarrow> visit) \<Rightarrow> string \<Rightarrow> frontier0 \<Rightarrow> frontier0" where
  "crawlStep0 newURL browse rootHostname s =
     (case urlsToVisit0 s of
        [] \<Rightarrow> s\<lparr>tick0 := Suc (tick0 s)\<rparr>
      | currentUrl # rest \<Rightarrow>
          let s1 = s\<lparr>urlsToVisit0 := rest, tick0 := Suc (tick0 s)\<rparr>
          in if currentUrl = [] \<or> currentUrl \<in> set (visitedUrls0 s) then s1
             else
               (case newURL currentUrl of
                  None \<Rightarrow> s1
                | Some pageUrl \<Rightarrow>
                    if url_hostname pageUrl \<noteq> rootHostname then s1
                    else
                      (case browse (tick0 s) currentUrl of
                         GotoFailed \<Rightarrow> s1\<lparr>events0 := events0 s @ [Goto currentUrl False]\<rparr>
                       | ScanFailed \<Rightarrow>
                           s1\<lparr>visitedUrls0 := set_add currentUrl (visitedUrls0 s),
                              events0 := events0 s @ [Goto currentUrl True]\<rparr>
                       | Loaded anchors \<Rightarrow>
                           let visited = set_add currentUrl (visitedUrls0 s);
                               qe = foldl (pushLink0 visited)
                                      (rest, events0 s @ [Goto currentUrl True])
                                      (extractLinks0 rootHostname anchors)
                           in s1\<lparr>urlsToVisit0 := fst qe, visitedUrls0 := visited,
                                 events0 := snd qe\<rparr>)))"

subsection \<open>part_001 (lines 259-365)\<close>

record queueItem =
  qi_url :: string
  qi_priority :: nat

record frontier1 =
  urlsToVisit1 :: "queueItem list"
  visitedUrls1 :: "string list"
  events1 :: "event list"
  tick1 :: nat

definition initial1 :: "string \<Rightarrow> frontier1" where
  "initial1 u =
     \<lparr>urlsToVisit1 = [\<lparr>qi_url = u, qi_priority = 0\<rparr>], visitedUrls1 = [], events1 = [], tick1 = 0\<rparr>"

definition priorityKeywords :: "string list" where
  "priorityKeywords =
     [''privacy'', ''policy'', ''terms'', ''conditions'', ''cookie'', ''contact'', ''about'',
      ''legal'', ''login'', ''pricing'', ''dpa'', ''security'']"

text \<open>The script run in the page: a map from the links of the root host, without fragment
  and query, to the text of the first anchor of each.\<close>

definition extractLinks1 :: "string \<Rightarrow> anchor list \<Rightarrow> (string \<times> string) list" where
  "extractLinks1 h anchors =
     foldl (\<lambda>links a.
        case an_url a of
          None \<Rightarrow> links
        | Some linkUrl \<Rightarrow>
            if url_hostname linkUrl = h
            then (let href = hd (js_split CHR ''?'' (hd (js_split CHR ''#'' (url_href linkUrl))))
                  in if \<not> map_has links href
                     then AList.update href (toLowerCase (trim (an_text a))) links else links)
            else links) [] anchors"

definition pushLink1 ::
  "string list \<Rightarrow> queueItem list \<times> event list \<Rightarrow> string \<times> string \<Rightarrow> queueItem list \<times> event list" where
  "pushLink1 visited qe link =
     (if fst link \<notin> set visited \<and> \<not> list_ex (\<lambda>item. qi_url item = fst link) (fst qe)
      then
        let linkTextAndHref = toLowerCase (snd link @ '' '' @ fst link);
            priority = (if list_ex (\<lambda>keyword. str_includes linkTextAndHref keyword) priorityKeywords
                        then 1 else 2)
        in (fst qe @ [\<lparr>qi_url = fst link, qi_priority = priority\<rparr>], snd qe @ [Enqueue (fst link)])
      else qe)"

definition crawlStep1 ::
  "(string \<Rightarrow> URL option) \<Rightarrow> (nat \<Rightarrow> string \<Rightarrow> visit) \<Rightarrow> string \<Rightarrow> frontier1 \<Rightarrow> frontier1" where
  "crawlStep1 newURL browse rootHostname s =
     (case sort_key qi_priority (urlsToVisit1 s) of
        [] \<Rightarrow> s\<lparr>tick1 := Suc (tick1 s)\<rparr>
      | currentItem # rest \<Rightarrow>
          let currentUrl = qi_url currentItem;
              s1 = s\<lparr>urlsToVisit1 := rest, tick1 := Suc (tick1 s)\<rparr>
          in if currentUrl \<in> set (visitedUrls1 s) then s1
             else
               (case newURL currentUrl of
                  None \<Rightarrow> s1
                | Some pageUrl \<Rightarrow>
                    if url_hostname pageUrl \<noteq> rootHostname then s1
                    else
                      (case browse (tick1 s) currentUrl of
                         GotoFailed \<Rightarrow> s1\<lparr>events1 := events1 s @ [Goto currentUrl False]\<rparr>
                       | ScanFailed \<Rightarrow>
                           s1\<lparr>visitedUrls1 := set_add currentUrl (visitedUrls1 s),
                              events1 := events1 s @ [Goto currentUrl True]\<rparr>
                       | Loaded anchors \<Rightarrow>
                           let visited = set_add currentUrl (visitedUrls1 s);
                               qe = foldl (pushLink1 visited)
                                      (rest, events1 s @ [Goto currentUrl True])
                                      (extractLinks1 rootHostname anchors)
                           in s1\<lparr>urlsToVisit1 := fst qe, visitedUrls1 := visited,
                                 events1 := snd qe\<rparr>)))"

subsection \<open>The loops\<close>

text \<open>
  \<^verbatim>\<open>while (visitedUrls.size < MAX_PAGES_TO_SCAN && urlsToVisit.length > 0)\<close>. An iteration
  either adds a URL to \<^verbatim>\<open>visitedUrls\<close> or shortens \<^verbatim>\<open>urlsToVisit\<close>, so the loop ends.
\<close>

function crawl0 ::
  "(string \<Rightarrow> URL option) \<Rightarrow> (nat \<Rightarrow> string \<Rightarrow> visit) \<Rightarrow> string \<Rightarrow> nat \<Rightarrow> frontier0 \<Rightarrow> frontier0" where
  "crawl0 newURL browse rootHostname MAX_PAGES s =
     (if length (visitedUrls0 s) < MAX_PAGES \<and> urlsToVisit0 s \<noteq> []
      then crawl0 newURL browse rootHostname MAX_PAGES (crawlStep0 newURL browse rootHostname s)
      else s)"
  by pat_completeness auto
termination
  by (relation "measures [\<lambda>(newURL, browse, rootHostname, MAX_PAGES, s). MAX_PAGES - length (visitedUrls0 s),
                           \<lambda>(newURL, browse, rootHostname, MAX_PAGES, s). length (urlsToVisit0 s)]")
     (auto simp: crawlStep0_def Let_def set_add_def split: list.splits option.splits visit.splits)

declare crawl0.simps [simp del]

function crawl1 ::
  "(string \<Rightarrow> URL option) \<Rightarrow> (nat \<Rightarrow> string \<Rightarrow> visit) \<Rightarrow> string \<Rightarrow> nat \<Rightarrow> frontier1 \<Rightarrow> frontier1" where
  "crawl1 newURL browse rootHostname MAX_PAGES s =
     (if urlsToVisit1 s \<noteq> [] \<and> length (visitedUrls1 s) < MAX_PAGES
      then crawl1 newURL browse rootHostname MAX_PAGES (crawlStep1 newURL browse rootHostname s)
      else s)"
  by pat_completeness auto
termination
  by (relation "measures [\<lambda>(newURL, browse, rootHostname, MAX_PAGES, s). MAX_PAGES - length (visitedUrls1 s),
                           \<lambda>(newURL, browse, rootHostname, MAX_PAGES, s). length (urlsToVisit1 s)]")
     (auto simp: crawlStep1_def Let_def set_add_def split: list.splits option.splits visit.splits
       dest: arg_cong[where f = length])

declare crawl1.simps [simp del]

text \<open>
  Reading a trace. \<open>navigated\<close> lists the URLs whose \<^verbatim>\<open>page.goto\<close> returned, in order.
  \<open>noRevisit V es\<close> holds when, starting from the visited set \<open>V\<close>, no event of \<open>es\<close>
  navigates to or enqueues a URL that is in the visited set at that moment.
  \<open>gotoTargets\<close> lists the URLs of all calls of \<^verbatim>\<open>page.goto\<close>. \<open>sameHost\<close> is the test
  that the loop applies to a dequeued URL.
\<close>

fun navigated :: "event list \<Rightarrow> string list" where
  "navigated [] = []"
| "navigated (Goto u ok # es) = (if ok then u # navigated es else navigated es)"
| "navigated (Enqueue u # es) = navigated es"

fun noRevisit :: "string set \<Rightarrow> event list \<Rightarrow> bool" where
  "noRevisit V [] = True"
| "noRevisit V (Goto u ok # es) = (u \<notin> V \<and> noRevisit (if ok then insert u V else V) es)"
| "noRevisit V (Enqueue u # es) = (u \<notin> V \<and> noRevisit V es)"

fun gotoTargets :: "event list \<Rightarrow> string list" where
  "gotoTargets [] = []"
| "gotoTargets (Goto u ok # es) = u # gotoTargets es"
| "gotoTargets (Enqueue u # es) = gotoTargets es"

definition sameHost :: "(string \<Rightarrow> URL option) \<Rightarrow> string \<Rightarrow> string \<Rightarrow> bool" where
  "sameHost newURL rootHostname u =
     (case newURL u of None \<Rightarrow> False | Some pageUrl \<Rightarrow> url_hostname pageUrl = rootHostname)"

text \<open>
  A site for the concrete examples: the entry page links to \<^verbatim>\<open>ads.example.com\<close>, to its
  own \<^verbatim>\<open>about\<close> page and to itself; the \<^verbatim>\<open>about\<close> page links back to the entry page.
\<close>

definition exampleAnchor :: "string \<Rightarrow> string \<Rightarrow> anchor" where
  "exampleAnchor u t = \<lparr>an_url = exampleURL u, an_text = t\<rparr>"

definition exampleBrowse :: "nat \<Rightarrow> string \<Rightarrow> visit" where
  "exampleBrowse n u =
     (if u = ''https://www.example.com/''
      then Loaded [exampleAnchor ''https://ads.example.com/'' ''Ads'',
                   exampleAnchor ''https://www.example.com/about'' ''About us'',
                   exampleAnchor ''https://www.example.com/'' ''Home'']
      else Loaded [exampleAnchor ''https://www.example.com/'' ''Home''])"

text \<open>The invariant of the loops that the proofs carry along.\<close>

definition traced0 :: "(string \<Rightarrow> URL option) \<Rightarrow> string \<Rightarrow> frontier0 \<Rightarrow> bool" where
  "traced0 newURL rootHostname s =
     (noRevisit {} (events0 s) \<and> navigated (events0 s) = visitedUrls0 s \<and> distinct (visitedUrls0 s)
      \<and> list_all (sameHost newURL rootHostname) (gotoTargets (events0 s)))"

definition traced1 :: "(string \<Rightarrow> URL option) \<Rightarrow> string \<Rightarrow> frontier1 \<Rightarrow> bool" where
  "traced1 newURL rootHostname s =
     (noRevisit {} (events1 s) \<and> navigated (events1 s) = visitedUrls1 s \<and> distinct (visitedUrls1 s)
      \<and> list_all (sameHost newURL rootHostname) (gotoTargets (events1 s)))"

section \<open>Properties of the aggregation\<close>

lemma js_split_not_Nil: "js_split sep s \<noteq> []"
  by (induction s) (auto split: list.splits)

lemma map_entry_same: "map_of m k = Some e \<Longrightarrow> f e = e \<Longrightarrow> AList.map_entry k f m = m"
  by (induction m) (auto split: if_splits)

lemma processItem1_lookup:
  "map_of (processItem1 keyOf st pg m it) k =
     (if k = keyOf it
      then Some (case map_of m k of
                   None \<Rightarrow> \<lparr>states = [st], data = it, pageUrls = [pg]\<rparr>
                 | Some e \<Rightarrow> e\<lparr>states := set_add st (states e), pageUrls := set_add pg (pageUrls e)\<rparr>)
      else map_of m k)"
  by (auto simp: processItem1_def Let_def map_has_def map_of_map_entry update_conv' set_add_def)

lemma processItem0_lookup:
  "map_of (processItem0 keyOf st m it) k =
     (if k = keyOf it
      then Some (case map_of m k of
                   None \<Rightarrow> \<lparr>states = [st], data = it\<rparr>
                 | Some e \<Rightarrow> e\<lparr>states := set_add st (states e)\<rparr>)
      else map_of m k)"
  by (auto simp: processItem0_def Let_def map_has_def map_of_map_entry update_conv' set_add_def)

lemma processLocalStorageItem_eq:
  "processLocalStorageItem st pg = processItem1 localStorageKey st pg"
  by (intro ext) (simp add: processLocalStorageItem_def processItem1_def)

lemma processLocalStorage_eq:
  "processLocalStorage m items st pg = processItems1 localStorageKey m items st pg"
  by (simp add: processLocalStorage_def processItems1_def processLocalStorageItem_eq)

subsection \<open>A repeated merge changes nothing\<close>

lemma processItem1_fixed:
  assumes "map_of m (keyOf it) = Some e" "st \<in> set (states e)" "pg \<in> set (pageUrls e)"
  shows "processItem1 keyOf st pg m it = m"
proof -
  have a: "AList.map_entry (keyOf it) (\<lambda>e. e\<lparr>states := set_add st (states e)\<rparr>) m = m"
    using assms by (intro map_entry_same[where e = e]) (auto simp: set_add_def)
  have b: "AList.map_entry (keyOf it) (\<lambda>e. e\<lparr>pageUrls := set_add pg (pageUrls e)\<rparr>) m = m"
    using assms by (intro map_entry_same[where e = e]) (auto simp: set_add_def)
  show ?thesis using assms(1) a b by (simp add: processItem1_def Let_def map_has_def)
qed

lemma processItem0_fixed:
  assumes "map_of m (keyOf it) = Some e" "st \<in> set (states e)"
  shows "processItem0 keyOf st m it = m"
proof -
  have a: "AList.map_entry (keyOf it) (\<lambda>e. e\<lparr>states := set_add st (states e)\<rparr>) m = m"
    using assms by (intro map_entry_same[where e = e]) (auto simp: set_add_def)
  show ?thesis using assms(1) a by (simp add: processItem0_def Let_def map_has_def)
qed

lemma seen1_step_keeps: "seen1 m k st pg \<Longrightarrow> seen1 (processItem1 keyOf st' pg' m it) k st pg"
  by (auto simp: seen1_def processItem1_lookup set_add_def split: option.splits)

lemma seen1_step_new: "seen1 (processItem1 keyOf st pg m it) (keyOf it) st pg"
  by (auto simp: seen1_def processItem1_lookup set_add_def split: option.splits)

lemma seen1_foldl:
  "it \<in> set items \<Longrightarrow> seen1 (foldl (processItem1 keyOf st pg) m items) (keyOf it) st pg"
proof (induction items rule: rev_induct)
  case Nil
  then show ?case by simp
next
  case (snoc x xs)
  then show ?case by (auto intro: seen1_step_keeps seen1_step_new)
qed

lemma foldl_processItem1_fixed:
  "(\<And>it. it \<in> set items \<Longrightarrow> seen1 m (keyOf it) st pg) \<Longrightarrow>
     foldl (processItem1 keyOf st pg) m items = m"
proof (induction items)
  case Nil
  then show ?case by simp
next
  case (Cons x xs)
  have "seen1 m (keyOf x) st pg" using Cons.prems by simp
  then have "processItem1 keyOf st pg m x = m"
    by (auto simp: seen1_def split: option.splits intro: processItem1_fixed)
  then show ?case using Cons by simp
qed

lemma processItems1_idem:
  "processItems1 keyOf (processItems1 keyOf m items st pg) items st pg =
     processItems1 keyOf m items st pg"
  unfolding processItems1_def by (rule foldl_processItem1_fixed) (rule seen1_foldl)

lemma seen0_step_keeps: "seen0 m k st \<Longrightarrow> seen0 (processItem0 keyOf st' m it) k st"
  by (auto simp: seen0_def processItem0_lookup set_add_def split: option.splits)

lemma seen0_step_new: "seen0 (processItem0 keyOf st m it) (keyOf it) st"
  by (auto simp: seen0_def processItem0_lookup set_add_def split: option.splits)

lemma seen0_foldl:
  "it \<in> set items \<Longrightarrow> seen0 (foldl (processItem0 keyOf st) m items) (keyOf it) st"
proof (induction items rule: rev_induct)
  case Nil
  then show ?case by simp
next
  case (snoc x xs)
  then show ?case by (auto intro: seen0_step_keeps seen0_step_new)
qed

lemma foldl_processItem0_fixed:
  "(\<And>it. it \<in> set items \<Longrightarrow> seen0 m (keyOf it) st) \<Longrightarrow>
     foldl (processItem0 keyOf st) m items = m"
proof (induction items)
  case Nil
  then show ?case by simp
next
  case (Cons x xs)
  have "seen0 m (keyOf x) st" using Cons.prems by simp
  then have "processItem0 keyOf st m x = m"
    by (auto simp: seen0_def split: option.splits intro: processItem0_fixed)
  then show ?case using Cons by simp
qed

lemma processItems0_idem:
  "processItems0 keyOf (processItems0 keyOf m items st) items st = processItems0 keyOf m items st"
  unfolding processItems0_def by (rule foldl_processItem0_fixed) (rule seen0_foldl)

text \<open>
  Claim C2 (merge idempotence). Merging the same observations, in the same consent
  state and on the same page, a second time leaves the whole map as the first merge
  left it: every record keeps its payload, its set of states and its set of pages. This
  holds for \<^verbatim>\<open>processItems\<close> and \<^verbatim>\<open>processLocalStorage\<close> of part_001 and for
  \<^verbatim>\<open>processItems\<close> of part_000 (which records no pages), for every map, every list of
  observations and every key expression.
\<close>

theorem merge_idempotent:
  "processItems1 keyOf (processItems1 keyOf m items st pg) items st pg =
     processItems1 keyOf m items st pg
   \<and> processLocalStorage (processLocalStorage ml litems st pg) litems st pg =
     processLocalStorage ml litems st pg
   \<and> processItems0 keyOf0 (processItems0 keyOf0 m0 items0 st) items0 st =
     processItems0 keyOf0 m0 items0 st"
  by (simp add: processItems1_idem processItems0_idem processLocalStorage_eq)

subsection \<open>States only grow, the first payload stays\<close>

lemma processItem1_grows:
  assumes "map_of m k = Some e"
  shows "\<exists>e'. map_of (processItem1 keyOf st pg m it) k = Some e' \<and> set (states e) \<subseteq> set (states e')
            \<and> set (pageUrls e) \<subseteq> set (pageUrls e') \<and> data e' = data e"
  using assms by (auto simp: processItem1_lookup set_add_def)

lemma processItems1_grows:
  assumes "map_of m k = Some e"
  shows "\<exists>e'. map_of (processItems1 keyOf m items st pg) k = Some e' \<and> set (states e) \<subseteq> set (states e')
            \<and> set (pageUrls e) \<subseteq> set (pageUrls e') \<and> data e' = data e"
  using assms unfolding processItems1_def
proof (induction items arbitrary: m e)
  case Nil
  then show ?case by simp
next
  case (Cons x xs)
  from processItem1_grows[OF Cons.prems, of keyOf st pg x]
  obtain e1 where e1: "map_of (processItem1 keyOf st pg m x) k = Some e1"
    "set (states e) \<subseteq> set (states e1)" "set (pageUrls e) \<subseteq> set (pageUrls e1)" "data e1 = data e"
    by blast
  from Cons.IH[OF e1(1)] obtain e' where
    "map_of (foldl (processItem1 keyOf st pg) (processItem1 keyOf st pg m x) xs) k = Some e'"
    "set (states e1) \<subseteq> set (states e')" "set (pageUrls e1) \<subseteq> set (pageUrls e')" "data e' = data e1"
    by blast
  with e1 show ?case by auto
qed

lemma mergeCalls1_grows:
  assumes "map_of m k = Some e"
  shows "\<exists>e'. map_of (mergeCalls1 keyOf m calls) k = Some e' \<and> set (states e) \<subseteq> set (states e')
            \<and> set (pageUrls e) \<subseteq> set (pageUrls e') \<and> data e' = data e"
  using assms unfolding mergeCalls1_def
proof (induction calls arbitrary: m e)
  case Nil
  then show ?case by simp
next
  case (Cons c cs)
  from processItems1_grows[OF Cons.prems, of keyOf "mc_items c" "mc_state c" "mc_pageUrl c"]
  obtain e1 where e1:
    "map_of (processItems1 keyOf m (mc_items c) (mc_state c) (mc_pageUrl c)) k = Some e1"
    "set (states e) \<subseteq> set (states e1)" "set (pageUrls e) \<subseteq> set (pageUrls e1)" "data e1 = data e"
    by blast
  from Cons.IH[OF e1(1)] obtain e' where
    "map_of (foldl (\<lambda>m c. processItems1 keyOf m (mc_items c) (mc_state c) (mc_pageUrl c))
        (processItems1 keyOf m (mc_items c) (mc_state c) (mc_pageUrl c)) cs) k = Some e'"
    "set (states e1) \<subseteq> set (states e')" "set (pageUrls e1) \<subseteq> set (pageUrls e')" "data e' = data e1"
    by blast
  with e1 show ?case by auto
qed

lemma processItem0_grows:
  assumes "map_of m k = Some e"
  shows "\<exists>e'. map_of (processItem0 keyOf st m it) k = Some e' \<and> set (states e) \<subseteq> set (states e')
            \<and> data e' = data e"
  using assms by (auto simp: processItem0_lookup set_add_def)

lemma processItems0_grows:
  assumes "map_of m k = Some e"
  shows "\<exists>e'. map_of (processItems0 keyOf m items st) k = Some e' \<and> set (states e) \<subseteq> set (states e')
            \<and> data e' = data e"
  using assms unfolding processItems0_def
proof (induction items arbitrary: m e)
  case Nil
  then show ?case by simp
next
  case (Cons x xs)
  from processItem0_grows[OF Cons.prems, of keyOf st x]
  obtain e1 where e1: "map_of (processItem0 keyOf st m x) k = Some e1"
    "set (states e) \<subseteq> set (states e1)" "data e1 = data e"
    by blast
  from Cons.IH[OF e1(1)] obtain e' where
    "map_of (foldl (processItem0 keyOf st) (processItem0 keyOf st m x) xs) k = Some e'"
    "set (states e1) \<subseteq> set (states e')" "data e' = data e1"
    by blast
  with e1 show ?case by auto
qed

lemma mergeCalls0_grows:
  assumes "map_of m k = Some e"
  shows "\<exists>e'. map_of (mergeCalls0 keyOf m calls) k = Some e' \<and> set (states e) \<subseteq> set (states e')
            \<and> data e' = data e"
  using assms unfolding mergeCalls0_def
proof (induction calls arbitrary: m e)
  case Nil
  then show ?case by simp
next
  case (Cons c cs)
  from processItems0_grows[OF Cons.prems, of keyOf "mc_items c" "mc_state c"]
  obtain e1 where e1: "map_of (processItems0 keyOf m (mc_items c) (mc_state c)) k = Some e1"
    "set (states e) \<subseteq> set (states e1)" "data e1 = data e"
    by blast
  from Cons.IH[OF e1(1)] obtain e' where
    "map_of (foldl (\<lambda>m c. processItems0 keyOf m (mc_items c) (mc_state c))
        (processItems0 keyOf m (mc_items c) (mc_state c)) cs) k = Some e'"
    "set (states e1) \<subseteq> set (states e')" "data e' = data e1"
    by blast
  with e1 show ?case by auto
qed

lemma first_insert1:
  assumes "map_of m (keyOf it) = None"
  shows "\<exists>e'. map_of (mergeCalls1 keyOf (processItem1 keyOf st pg m it) calls) (keyOf it) = Some e'
            \<and> data e' = it \<and> st \<in> set (states e')"
proof -
  have "map_of (processItem1 keyOf st pg m it) (keyOf it) =
          Some \<lparr>states = [st], data = it, pageUrls = [pg]\<rparr>"
    using assms by (simp add: processItem1_lookup)
  from mergeCalls1_grows[OF this, of keyOf calls] show ?thesis by auto
qed

lemma first_insert0:
  assumes "map_of m (keyOf it) = None"
  shows "\<exists>e'. map_of (mergeCalls0 keyOf (processItem0 keyOf st m it) calls) (keyOf it) = Some e'
            \<and> data e' = it \<and> st \<in> set (states e')"
proof -
  have "map_of (processItem0 keyOf st m it) (keyOf it) = Some \<lparr>states = [st], data = it\<rparr>"
    using assms by (simp add: processItem0_lookup)
  from mergeCalls0_grows[OF this, of keyOf calls] show ?thesis by auto
qed



section \<open>Properties of the expiry label\<close>

subsection \<open>Rounding to binary64 is monotone\<close>

lemma binade_bounds:
  "0 < x \<Longrightarrow> 2 powi binade x \<le> x \<and> x < 2 powi (binade x + 1)"
proof (induction x rule: binade.induct)
  case (1 x)
  show ?case
  proof (cases "2 \<le> x")
    case True
    then have b: "binade x = binade (x / 2) + 1" using 1(3) by (subst binade.simps) simp
    have "2 powi binade (x / 2) \<le> x / 2 \<and> x / 2 < 2 powi (binade (x / 2) + 1)"
      using 1(1)[OF _ True] 1(3) by simp
    then show ?thesis unfolding b by (simp add: power_int_add)
  next
    case False
    show ?thesis
    proof (cases "x < 1")
      case True
      then have b: "binade x = binade (x * 2) - 1" using 1(3) False by (subst binade.simps) simp
      have "2 powi binade (x * 2) \<le> x * 2 \<and> x * 2 < 2 powi (binade (x * 2) + 1)"
        using 1(2)[OF _ False True] 1(3) by simp
      then show ?thesis unfolding b by (simp add: power_int_add power_int_diff)
    next
      case False
      with \<open>\<not> 2 \<le> x\<close> 1(3) have "binade x = 0" by (subst binade.simps) simp
      then show ?thesis using False \<open>\<not> 2 \<le> x\<close> by simp
    qed
  qed
qed

lemma binade_mono:
  assumes "0 < x" "x \<le> y"
  shows "binade x \<le> binade y"
proof (rule ccontr)
  assume "\<not> binade x \<le> binade y"
  then have "binade y + 1 \<le> binade x" by simp
  then have "(2::real) powi (binade y + 1) \<le> 2 powi binade x"
    by (intro power_int_increasing) simp_all
  also have "\<dots> \<le> x" using binade_bounds[OF assms(1)] by simp
  finally show False using binade_bounds[of y] assms by simp
qed

lemma rte_floor: "\<lfloor>x\<rfloor> \<le> roundTiesToEven x \<and> roundTiesToEven x \<le> \<lfloor>x\<rfloor> + 1"
  by (simp add: roundTiesToEven_def Let_def)

lemma rte_int [simp]: "roundTiesToEven (of_int n) = n"
  by (simp add: roundTiesToEven_def Let_def)

lemma rte_zero [simp]: "roundTiesToEven 0 = 0"
  by (simp add: roundTiesToEven_def)

lemma rte_mono:
  assumes "x \<le> y"
  shows "roundTiesToEven x \<le> roundTiesToEven y"
proof (cases "\<lfloor>x\<rfloor> = \<lfloor>y\<rfloor>")
  case True
  then show ?thesis using assms by (auto simp: roundTiesToEven_def Let_def)
next
  case False
  then have "\<lfloor>x\<rfloor> + 1 \<le> \<lfloor>y\<rfloor>" using floor_mono[OF assms] by simp
  then show ?thesis using rte_floor[of x] rte_floor[of y] by linarith
qed

lemma rte_minus: "roundTiesToEven (- x) = - roundTiesToEven x"
proof (cases "x \<in> \<int>")
  case True
  then obtain n where x: "x = of_int n" by (auto elim: Ints_cases)
  have "roundTiesToEven (of_int (- n)) = - n" by (rule rte_int)
  then show ?thesis unfolding x by simp
next
  case False
  then have "x \<noteq> of_int \<lfloor>x\<rfloor>" by (metis Ints_of_int)
  then have f: "\<lfloor>- x\<rfloor> = - \<lfloor>x\<rfloor> - 1"
    by (simp add: floor_minus ceiling_altdef)
  show ?thesis unfolding roundTiesToEven_def Let_def f
    by (auto simp: field_simps)
qed

lemma ulp_pos [simp]: "0 < ulp x"
  by (simp add: ulp_def)

lemma ulp_nonneg [simp]: "0 \<le> ulp x"
  by (simp add: ulp_def)

lemma ulp_minus [simp]: "ulp (- x) = ulp x"
  by (simp add: ulp_def)

lemma binary64_minus: "binary64 (- x) = - binary64 x"
  by (simp add: binary64_def rte_minus)

lemma binary64_zero [simp]: "binary64 0 = 0"
  by (simp add: binary64_def)

lemma binary64_nonneg:
  assumes "0 \<le> x"
  shows "0 \<le> binary64 x"
proof -
  have "roundTiesToEven 0 \<le> roundTiesToEven (x / ulp x)"
    by (rule rte_mono) (use assms in simp)
  then show ?thesis by (simp add: binary64_def)
qed

lemma binary64_upper:
  assumes "0 < x" "e = max (binade x) (- 1022)"
  shows "binary64 x \<le> 2 powi (e + 1)"
proof -
  have u: "ulp x = 2 powi (e - 52)" using assms by (simp add: ulp_def)
  have "x < 2 powi (binade x + 1)" using binade_bounds[OF assms(1)] by simp
  also have "\<dots> \<le> 2 powi (e + 1)" by (rule power_int_increasing) (use assms in simp_all)
  finally have "x / ulp x \<le> 2 powi (e + 1) / 2 powi (e - 52)"
    unfolding u by (simp add: divide_right_mono)
  also have "\<dots> = of_int (2 ^ 53)" by (simp add: power_int_diff[symmetric])
  finally have "roundTiesToEven (x / ulp x) \<le> 2 ^ 53"
    using rte_mono[of "x / ulp x" "of_int (2 ^ 53)"] by (simp only: rte_int)
  then have "of_int (roundTiesToEven (x / ulp x)) * ulp x \<le> of_int (2 ^ 53) * ulp x"
    by (intro mult_right_mono) (simp_all del: of_int_power of_int_numeral)
  also have "\<dots> = 2 powi (e + 1)" unfolding u by (simp add: power_int_add power_int_diff)
  finally show ?thesis by (simp add: binary64_def)
qed

lemma binary64_lower:
  assumes "0 < x" "- 1022 \<le> binade x"
  shows "2 powi binade x \<le> binary64 x"
proof -
  have u: "ulp x = 2 powi (binade x - 52)" using assms by (simp add: ulp_def max_def)
  have "2 powi binade x / 2 powi (binade x - 52) \<le> x / ulp x"
    unfolding u using binade_bounds[OF assms(1)] by (simp add: divide_right_mono)
  moreover have "2 powi binade x / 2 powi (binade x - 52) = (of_int (2 ^ 52) :: real)"
    by (simp add: power_int_diff[symmetric])
  ultimately have "2 ^ 52 \<le> roundTiesToEven (x / ulp x)"
    using rte_mono[of "of_int (2 ^ 52)" "x / ulp x"] by (simp only: rte_int)
  then have A: "of_int (2 ^ 52) * ulp x \<le> of_int (roundTiesToEven (x / ulp x)) * ulp x"
    by (intro mult_right_mono) (simp_all del: of_int_power of_int_numeral)
  have B: "of_int (2 ^ 52) * ulp x = 2 powi binade x"
    unfolding u by (simp add: power_int_diff)
  show ?thesis unfolding binary64_def using A[unfolded B] .
qed

lemma binary64_mono_pos:
  assumes "0 < x" "x \<le> y"
  shows "binary64 x \<le> binary64 y"
proof -
  define ex where "ex = max (binade x) (- 1022)"
  define ey where "ey = max (binade y) (- 1022)"
  have y: "0 < y" using assms by simp
  have le: "ex \<le> ey" using binade_mono[OF assms] by (simp add: ex_def ey_def)
  have ux: "ulp x = 2 powi (ex - 52)" and uy: "ulp y = 2 powi (ey - 52)"
    using assms y by (simp_all add: ulp_def ex_def ey_def)
  show ?thesis
  proof (cases "ex = ey")
    case True
    then have "ulp x = ulp y" by (simp add: ux uy)
    moreover have "x / ulp y \<le> y / ulp y" using assms by (simp add: divide_right_mono)
    ultimately show ?thesis
      using rte_mono[of "x / ulp y" "y / ulp y"] by (simp add: binary64_def mult_right_mono)
  next
    case False
    then have lt: "ex + 1 \<le> ey" using le by simp
    then have b: "ey = binade y" "- 1022 \<le> binade y" by (simp_all add: ey_def ex_def max_def split: if_splits)
    have "binary64 x \<le> 2 powi (ex + 1)" by (rule binary64_upper[OF assms(1) ex_def])
    also have "\<dots> \<le> 2 powi ey" by (rule power_int_increasing) (use lt in simp_all)
    also have "\<dots> \<le> binary64 y" unfolding b(1) by (rule binary64_lower[OF y b(2)])
    finally show ?thesis .
  qed
qed

lemma binary64_mono:
  assumes "x \<le> y"
  shows "binary64 x \<le> binary64 y"
proof -
  consider "0 < x" | "x \<le> 0" "0 \<le> y" | "y < 0" by linarith
  then show ?thesis
  proof cases
    case 1
    then show ?thesis by (rule binary64_mono_pos[OF _ assms])
  next
    case 2
    have "binary64 x = - binary64 (- x)" using binary64_minus[of "- x"] by simp
    then have "binary64 x \<le> 0" using binary64_nonneg[of "- x"] 2 by simp
    then show ?thesis using binary64_nonneg[OF 2(2)] by simp
  next
    case 3
    then have "binary64 (- y) \<le> binary64 (- x)" using assms by (intro binary64_mono_pos) simp_all
    then show ?thesis by (simp add: binary64_minus)
  qed
qed


text \<open>Some values of the rounding: 0.1 and 1.15 are not binary64 values, and a tie goes to
  the even significand.\<close>

lemma binary64_examples:
  "binary64 (1 / 10) = 3602879701896397 / 2 ^ 55"
  "binary64 (115 / 100) = 5179139571476070 / 2 ^ 52"
  "binary64 9007199254740993 = 9007199254740992"
  "binary64 9007199254740995 = 9007199254740996"
  "binary64 (- (1 / 2)) = - (1 / 2)"
  by (simp_all add: binary64_def ulp_def binade.simps roundTiesToEven_def Let_def)

subsection \<open>The buckets\<close>

text \<open>The local \<^verbatim>\<open>diffSeconds\<close> grows with the expiry date, so each comparison of the
  function is a comparison of the time left, in milliseconds, with the threshold.\<close>

lemma diffSecondsOf_mono: "k \<le> l \<Longrightarrow> diffSecondsOf k \<le> diffSecondsOf l"
  unfolding diffSecondsOf_def
  by (intro binary64_mono divide_right_mono) simp_all

lemmas binary64_eval = binary64_def ulp_def binade.simps roundTiesToEven_def Let_def

lemma diffSecondsOf_at:
  "diffSecondsOf (- 1) < 0" "0 \<le> diffSecondsOf 0"
  "diffSecondsOf 3599999 < 3600" "3600 \<le> diffSecondsOf 3600000"
  "diffSecondsOf 86399999 < 86400" "86400 \<le> diffSecondsOf 86400000"
  "diffSecondsOf 2591999999 < 2592000" "2592000 \<le> diffSecondsOf 2592000000"
  "diffSecondsOf 31535999999 < 31536000" "31536000 \<le> diffSecondsOf 31536000000"
  by (simp_all add: diffSecondsOf_def binary64_eval)

lemma bucket_iff:
  assumes "diffSecondsOf (c - 1) < b" "b \<le> diffSecondsOf c"
  shows "diffSecondsOf k < b \<longleftrightarrow> k < c"
proof
  assume "diffSecondsOf k < b"
  show "k < c"
  proof (rule ccontr)
    assume "\<not> k < c"
    then have "diffSecondsOf c \<le> diffSecondsOf k" by (intro diffSecondsOf_mono) simp
    then show False using assms(2) \<open>diffSecondsOf k < b\<close> by simp
  qed
next
  assume "k < c"
  then have "diffSecondsOf k \<le> diffSecondsOf (c - 1)" by (intro diffSecondsOf_mono) simp
  then show "diffSecondsOf k < b" using assms(1) by simp
qed

lemma diffSecondsOf_less:
  "diffSecondsOf k < 0 \<longleftrightarrow> k < 0"
  "diffSecondsOf k < 3600 \<longleftrightarrow> k < 3600000"
  "diffSecondsOf k < 86400 \<longleftrightarrow> k < 86400000"
  "diffSecondsOf k < 2592000 \<longleftrightarrow> k < 2592000000"
  "diffSecondsOf k < 31536000 \<longleftrightarrow> k < 31536000000"
  using bucket_iff[of 0 0 k] bucket_iff[of 3600000 3600 k] bucket_iff[of 86400000 86400 k]
    bucket_iff[of 2592000000 2592000 k] bucket_iff[of 31536000000 31536000 k] diffSecondsOf_at
  by simp_all

lemma expiry_unfold:
  assumes "\<not> session c" "expires c \<noteq> Num (- 1)" "Date_getTime (times1000 (expires c)) = Some T"
  shows "getHumanReadableExpiry now c =
     (if diffSecondsOf (T - now) < 0 then ''Expired''
      else if diffSecondsOf (T - now) < 3600 then
        showInt (Math_round (binary64 (diffSecondsOf (T - now) / 60))) @ '' minutes''
      else if diffSecondsOf (T - now) < 86400 then
        showInt (Math_round (binary64 (diffSecondsOf (T - now) / 3600))) @ '' hours''
      else if diffSecondsOf (T - now) < 2592000 then
        showInt (Math_round (binary64 (diffSecondsOf (T - now) / 86400))) @ '' days''
      else if diffSecondsOf (T - now) < 31536000 then
        showInt (Math_round (binary64 (diffSecondsOf (T - now) / 2592000))) @ '' months''
      else yearsLabel (binary64 (diffSecondsOf (T - now) / 31536000)))"
  using assms by (simp add: getHumanReadableExpiry_def Let_def diffSecondsOf_def del: of_int_diff)

lemma expiry_cases:
  assumes "\<not> session c" "expires c \<noteq> Num (- 1)" "Date_getTime (times1000 (expires c)) = Some T"
  shows "getHumanReadableExpiry now c =
     (if T - now < 0 then ''Expired''
      else if T - now < 3600000 then
        showInt (Math_round (binary64 (diffSecondsOf (T - now) / 60))) @ '' minutes''
      else if T - now < 86400000 then
        showInt (Math_round (binary64 (diffSecondsOf (T - now) / 3600))) @ '' hours''
      else if T - now < 2592000000 then
        showInt (Math_round (binary64 (diffSecondsOf (T - now) / 86400))) @ '' days''
      else if T - now < 31536000000 then
        showInt (Math_round (binary64 (diffSecondsOf (T - now) / 2592000))) @ '' months''
      else yearsLabel (binary64 (diffSecondsOf (T - now) / 31536000)))"
  by (simp only: expiry_unfold[OF assms] diffSecondsOf_less)

subsection \<open>The number shown is the time left, rounded half up\<close>

text \<open>The number of a label grows with the expiry date too; it is therefore enough to
  evaluate it at the two ends of the time differences nearest to each number of units.\<close>

lemma Math_round_mono: "x \<le> y \<Longrightarrow> Math_round x \<le> Math_round y"
  by (simp add: Math_round_def floor_mono)

lemma shownUnits_mono: "0 < u \<Longrightarrow> k \<le> l \<Longrightarrow> shownUnits u k \<le> shownUnits u l"
  unfolding shownUnits_def
  by (intro Math_round_mono binary64_mono divide_right_mono diffSecondsOf_mono) simp_all

lemma shown_half_up:
  assumes "0 < u" "0 < h" "halfUpAt u h ((k + h) div (2 * h))"
  shows "shownUnits u k = (k + h) div (2 * h)"
proof -
  define m where "m = (k + h) div (2 * h)"
  have "(k + h) mod (2 * h) < 2 * h" "0 \<le> (k + h) mod (2 * h)" using assms(2) by simp_all
  moreover have "k + h = 2 * h * m + (k + h) mod (2 * h)" by (simp add: m_def)
  ultimately have lo: "2 * h * m - h \<le> k" and hi: "k \<le> 2 * h * m + h - 1" by linarith+
  have "shownUnits u (2 * h * m - h) = m" "shownUnits u (2 * h * m + h - 1) = m"
    using assms(3) by (simp_all add: halfUpAt_def m_def)
  then have "m \<le> shownUnits u k" "shownUnits u k \<le> m"
    using shownUnits_mono[OF assms(1) lo] shownUnits_mono[OF assms(1) hi] by simp_all
  then show ?thesis by (simp add: m_def)
qed

lemmas shown_eval = halfUpAt_def shownUnits_def Math_round_def diffSecondsOf_def binary64_eval

lemma minutes_table:
  "halfUpAt 60 30000 0" "halfUpAt 60 30000 1" "list_all (halfUpAt 60 30000) [2..60]"
  by (simp_all add: shown_eval)

lemma hours_table:
  "halfUpAt 3600 1800000 1" "list_all (halfUpAt 3600 1800000) [2..24]"
  by (simp_all add: shown_eval)

lemma days_table:
  "halfUpAt 86400 43200000 1" "list_all (halfUpAt 86400 43200000) [2..30]"
  by (simp_all add: shown_eval)

lemma months_table:
  "halfUpAt 2592000 1296000000 1" "list_all (halfUpAt 2592000 1296000000) [2..12]"
  by (simp_all add: shown_eval)

lemma in_table:
  assumes "P 1" "list_all P [2..n]" "1 \<le> m" "m \<le> n"
  shows "P m"
proof (cases "m = 1")
  case False
  then have "m \<in> set [2..n]" using assms(3,4) by simp
  then show ?thesis using assms(2) by (simp add: list_all_iff del: set_upto)
qed (use assms(1) in simp)

lemma minutes_shown:
  assumes "0 \<le> k" "k < 3600000"
  shows "shownUnits 60 k = (k + 30000) div 60000"
proof -
  have "0 \<le> (k + 30000) div 60000" "(k + 30000) div 60000 \<le> 60" using assms by simp_all
  then have "halfUpAt 60 30000 ((k + 30000) div 60000)"
    using minutes_table(1) in_table[OF minutes_table(2,3), of "(k + 30000) div 60000"]
    by (cases "(k + 30000) div 60000 = 0") simp_all
  then show ?thesis using shown_half_up[of 60 30000 k] by simp
qed

lemma hours_shown:
  assumes "3600000 \<le> k" "k < 86400000"
  shows "shownUnits 3600 k = (k + 1800000) div 3600000"
proof -
  have "1 \<le> (k + 1800000) div 3600000" "(k + 1800000) div 3600000 \<le> 24" using assms by simp_all
  then have "halfUpAt 3600 1800000 ((k + 1800000) div 3600000)"
    by (rule in_table[OF hours_table])
  then show ?thesis using shown_half_up[of 3600 1800000 k] by simp
qed

lemma days_shown:
  assumes "86400000 \<le> k" "k < 2592000000"
  shows "shownUnits 86400 k = (k + 43200000) div 86400000"
proof -
  have "1 \<le> (k + 43200000) div 86400000" "(k + 43200000) div 86400000 \<le> 30" using assms by simp_all
  then have "halfUpAt 86400 43200000 ((k + 43200000) div 86400000)"
    by (rule in_table[OF days_table])
  then show ?thesis using shown_half_up[of 86400 43200000 k] by simp
qed

lemma months_shown:
  assumes "2592000000 \<le> k" "k < 31536000000"
  shows "shownUnits 2592000 k = (k + 1296000000) div 2592000000"
proof -
  have "1 \<le> (k + 1296000000) div 2592000000" "(k + 1296000000) div 2592000000 \<le> 12"
    using assms by simp_all
  then have "halfUpAt 2592000 1296000000 ((k + 1296000000) div 2592000000)"
    by (rule in_table[OF months_table])
  then show ?thesis using shown_half_up[of 2592000 1296000000 k] by simp
qed

subsection \<open>The label\<close>

lemma label_not_Session: "xs @ '' minutes'' \<noteq> ''Session''"
proof
  assume "xs @ '' minutes'' = ''Session''"
  then have "last (xs @ '' minutes'') = last ''Session''" by simp
  then show False by simp
qed

lemma showInt_nonneg: "0 \<le> i \<Longrightarrow> showInt i = showNat (nat i)"
  by (simp add: showInt_def)

lemma yearsLabel_unfold:
  "yearsLabel y =
     (let n = \<lfloor>y * 10 + 1 / 2\<rfloor>
      in showInt (n div 10) @ (if n mod 10 = 0 then [] else ''.'' @ showInt (n mod 10))
         @ (if 10 < n then '' years'' else '' year''))"
  by (simp add: yearsLabel_def showTenths_def Math_round_def Let_def showInt_nonneg)

lemma years_at_least_one:
  assumes "31536000000 \<le> k"
  shows "10 \<le> \<lfloor>binary64 (diffSecondsOf k / 31536000) * 10 + 1 / 2\<rfloor>"
proof -
  have "diffSecondsOf 31536000000 \<le> diffSecondsOf k" by (rule diffSecondsOf_mono[OF assms])
  then have "binary64 (diffSecondsOf 31536000000 / 31536000) \<le> binary64 (diffSecondsOf k / 31536000)"
    by (intro binary64_mono divide_right_mono) simp_all
  moreover have "binary64 (diffSecondsOf 31536000000 / 31536000) = 1"
    by (simp add: diffSecondsOf_def binary64_eval)
  ultimately have "1 \<le> binary64 (diffSecondsOf k / 31536000)" by simp
  then show ?thesis by linarith
qed

lemma expiry_invalid_date:
  assumes "\<not> session c" "expires c \<noteq> Num (- 1)" "Date_getTime (times1000 (expires c)) = None"
  shows "getHumanReadableExpiry now c = ''NaN year''"
  using assms by (simp add: getHumanReadableExpiry_def)

text \<open>The time value of some dates: the product with 1000 is rounded before it is
  truncated, the truncation is towards zero, and the range of \<^verbatim>\<open>Date\<close> ends at 8.64e15.\<close>

lemma Date_getTime_examples:
  "Date_getTime (times1000 (Num (1813152891970519 / 1048576))) = Some 1729157344790"
  "\<lfloor>1813152891970519 / 1048576 * 1000 :: real\<rfloor> = 1729157344789"
  "Date_getTime (Num (- (1 / 2))) = Some 0"
  "Date_getTime (Num (- (3 / 2))) = Some (- 1)"
  "Date_getTime (Num (3 / 2)) = Some 1"
  "Date_getTime (Num 8640000000000000) = Some 8640000000000000"
  "Date_getTime (Num 8640000000000001) = None"
  "Date_getTime (times1000 NaN) = None"
  by (simp_all add: times1000_def Date_getTime_def binary64_eval)

lemma timed_dates:
  "Date_getTime (times1000 (Num 1699999990)) = Some 1699999990000"
  "Date_getTime (times1000 (Num 1700002700)) = Some 1700002700000"
  "Date_getTime (times1000 (Num 1700002730)) = Some 1700002730000"
  "Date_getTime (times1000 (Num 1700018000)) = Some 1700018000000"
  "Date_getTime (times1000 (Num 1700864000)) = Some 1700864000000"
  "Date_getTime (times1000 (Num 1707776000)) = Some 1707776000000"
  "Date_getTime (times1000 (Num 1731536000)) = Some 1731536000000"
  "Date_getTime (times1000 (Num 1736266400)) = Some 1736266400000"
  "Date_getTime (times1000 (Num 10000000000000)) = None"
  by (simp_all add: times1000_def Date_getTime_def binary64_eval)

text \<open>The tenths of a year shown after 1, 1.15, 1.45 and 8.35 years of 365 days: the
  quotients of the last three lie just below the halves.\<close>

lemma years_examples:
  "\<lfloor>binary64 (diffSecondsOf 31536000000 / 31536000) * 10 + 1 / 2\<rfloor> = 10"
  "\<lfloor>binary64 (diffSecondsOf 36266400000 / 31536000) * 10 + 1 / 2\<rfloor> = 11"
  "\<lfloor>binary64 (diffSecondsOf 45727200000 / 31536000) * 10 + 1 / 2\<rfloor> = 14"
  "\<lfloor>binary64 (diffSecondsOf 263325600000 / 31536000) * 10 + 1 / 2\<rfloor> = 83"
  by (simp_all add: diffSecondsOf_def binary64_eval)

text \<open>
  Claim C8 (expiry bucketing), as amended. \<^verbatim>\<open>getHumanReadableExpiry\<close> has no failing branch,
  and its result is fixed by the cookie and the clock. A session cookie (flag set, or
  \<^verbatim>\<open>expires = -1\<close>) is labelled \<^verbatim>\<open>Session\<close>. For any other cookie whose expiry date is a
  valid date, with the time value \<open>T\<close> in milliseconds: a date before the clock is labelled
  \<^verbatim>\<open>Expired\<close>; less than one hour after the clock gives the minutes left (a label that is
  not \<^verbatim>\<open>Session\<close>), less than one day the hours, less than 30 days the days, less than 365
  days the months of 30 days, each the time left rounded to the nearest unit, halves
  upwards; anything longer gives the years of 365 days, at least one, as the binary64
  quotient rounded to one decimal, printed without a trailing \<^verbatim>\<open>.0\<close> and as \<^verbatim>\<open>year\<close> for
  exactly one. A date 45 minutes after the clock reads \<^verbatim>\<open>45 minutes\<close>.
\<close>

theorem expiry_buckets:
  "(session c \<or> expires c = Num (- 1) \<longrightarrow> getHumanReadableExpiry now c = ''Session'')
   \<and> (\<not> session c \<and> expires c \<noteq> Num (- 1) \<and> Date_getTime (times1000 (expires c)) = Some T \<longrightarrow>
        (T < now \<longrightarrow> getHumanReadableExpiry now c = ''Expired'')
      \<and> (now \<le> T \<and> T < now + 3600000 \<longrightarrow>
            getHumanReadableExpiry now c = showInt ((T - now + 30000) div 60000) @ '' minutes''
          \<and> getHumanReadableExpiry now c \<noteq> ''Session'')
      \<and> (T = now + 45 * 60 * 1000 \<longrightarrow> getHumanReadableExpiry now c = ''45 minutes'')
      \<and> (now + 3600000 \<le> T \<and> T < now + 86400000 \<longrightarrow>
            getHumanReadableExpiry now c = showInt ((T - now + 1800000) div 3600000) @ '' hours'')
      \<and> (now + 86400000 \<le> T \<and> T < now + 2592000000 \<longrightarrow>
            getHumanReadableExpiry now c = showInt ((T - now + 43200000) div 86400000) @ '' days'')
      \<and> (now + 2592000000 \<le> T \<and> T < now + 31536000000 \<longrightarrow>
            getHumanReadableExpiry now c =
              showInt ((T - now + 1296000000) div 2592000000) @ '' months'')
      \<and> (now + 31536000000 \<le> T \<longrightarrow>
            (let n = \<lfloor>binary64 (diffSecondsOf (T - now) / 31536000) * 10 + 1 / 2\<rfloor>
             in 10 \<le> n
                \<and> getHumanReadableExpiry now c =
                    showInt (n div 10) @ (if n mod 10 = 0 then [] else ''.'' @ showInt (n mod 10))
                    @ (if 10 < n then '' years'' else '' year''))))"
proof (intro conjI impI)
  assume "session c \<or> expires c = Num (- 1)"
  then show "getHumanReadableExpiry now c = ''Session''"
    by (auto simp: getHumanReadableExpiry_def)
next
  assume a: "\<not> session c \<and> expires c \<noteq> Num (- 1) \<and> Date_getTime (times1000 (expires c)) = Some T"
  then have cases: "getHumanReadableExpiry now c =
     (if T - now < 0 then ''Expired''
      else if T - now < 3600000 then
        showInt (Math_round (binary64 (diffSecondsOf (T - now) / 60))) @ '' minutes''
      else if T - now < 86400000 then
        showInt (Math_round (binary64 (diffSecondsOf (T - now) / 3600))) @ '' hours''
      else if T - now < 2592000000 then
        showInt (Math_round (binary64 (diffSecondsOf (T - now) / 86400))) @ '' days''
      else if T - now < 31536000000 then
        showInt (Math_round (binary64 (diffSecondsOf (T - now) / 2592000))) @ '' months''
      else yearsLabel (binary64 (diffSecondsOf (T - now) / 31536000)))"
    by (intro expiry_cases) simp_all
  {
    assume "T < now"
    then show "getHumanReadableExpiry now c = ''Expired''" by (simp add: cases)
  }
  {
    assume b: "now \<le> T \<and> T < now + 3600000"
    then have "shownUnits 60 (T - now) = (T - now + 30000) div 60000"
      by (intro minutes_shown) simp_all
    then show m: "getHumanReadableExpiry now c = showInt ((T - now + 30000) div 60000) @ '' minutes''"
      using b by (simp add: cases shownUnits_def)
    show "getHumanReadableExpiry now c \<noteq> ''Session''"
      unfolding m by (rule label_not_Session)
  }
  {
    assume b: "T = now + 45 * 60 * 1000"
    then have "shownUnits 60 (T - now) = (T - now + 30000) div 60000"
      by (intro minutes_shown) simp_all
    then show "getHumanReadableExpiry now c = ''45 minutes''"
      using b by (simp add: cases shownUnits_def showInt_def showNat.simps digit_char_def)
  }
  {
    assume b: "now + 3600000 \<le> T \<and> T < now + 86400000"
    then have "shownUnits 3600 (T - now) = (T - now + 1800000) div 3600000"
      by (intro hours_shown) simp_all
    then show "getHumanReadableExpiry now c = showInt ((T - now + 1800000) div 3600000) @ '' hours''"
      using b by (simp add: cases shownUnits_def)
  }
  {
    assume b: "now + 86400000 \<le> T \<and> T < now + 2592000000"
    then have "shownUnits 86400 (T - now) = (T - now + 43200000) div 86400000"
      by (intro days_shown) simp_all
    then show "getHumanReadableExpiry now c = showInt ((T - now + 43200000) div 86400000) @ '' days''"
      using b by (simp add: cases shownUnits_def)
  }
  {
    assume b: "now + 2592000000 \<le> T \<and> T < now + 31536000000"
    then have "shownUnits 2592000 (T - now) = (T - now + 1296000000) div 2592000000"
      by (intro months_shown) simp_all
    then show "getHumanReadableExpiry now c =
        showInt ((T - now + 1296000000) div 2592000000) @ '' months''"
      using b by (simp add: cases shownUnits_def)
  }
  {
    assume b: "now + 31536000000 \<le> T"
    then have "getHumanReadableExpiry now c = yearsLabel (binary64 (diffSecondsOf (T - now) / 31536000))"
      by (simp add: cases)
    moreover have "10 \<le> \<lfloor>binary64 (diffSecondsOf (T - now) / 31536000) * 10 + 1 / 2\<rfloor>"
      using b by (intro years_at_least_one) simp
    ultimately show "let n = \<lfloor>binary64 (diffSecondsOf (T - now) / 31536000) * 10 + 1 / 2\<rfloor>
             in 10 \<le> n
                \<and> getHumanReadableExpiry now c =
                    showInt (n div 10) @ (if n mod 10 = 0 then [] else ''.'' @ showInt (n mod 10))
                    @ (if 10 < n then '' years'' else '' year'')"
      by (simp add: yearsLabel_unfold Let_def)
  }
qed

text \<open>
  The claim as stated names no bucket for a date in the past: ten seconds after its expiry
  date a cookie lies less than one hour from the clock, where the specification gives it a
  minutes bucket, and the function labels it \<^verbatim>\<open>Expired\<close>. With an expiry date beyond the
  range of \<^verbatim>\<open>Date\<close> (here \<^verbatim>\<open>expires = 1e13\<close> seconds) the label is \<^verbatim>\<open>NaN year\<close>, which is no
  number of years.
\<close>

theorem expiry_buckets_counterexample:
  "\<not> session (timedCookie 1699999990) \<and> expires (timedCookie 1699999990) \<noteq> Num (- 1)
   \<and> Date_getTime (times1000 (expires (timedCookie 1699999990))) = Some (1700000000000 - 10000)
   \<and> spec_expiryUnit (session (timedCookie 1699999990) \<or> expires (timedCookie 1699999990) = Num (- 1))
        (- 10000) = ''minute''
   \<and> getHumanReadableExpiry 1700000000000 (timedCookie 1699999990) = ''Expired''
   \<and> \<not> str_includes (getHumanReadableExpiry 1700000000000 (timedCookie 1699999990)) ''minute''
   \<and> \<not> session (timedCookie 10000000000000) \<and> expires (timedCookie 10000000000000) \<noteq> Num (- 1)
   \<and> spec_expiryUnit (session (timedCookie 10000000000000) \<or> expires (timedCookie 10000000000000) = Num (- 1))
        (10000000000000000 - 1700000000000) = ''year''
   \<and> getHumanReadableExpiry 1700000000000 (timedCookie 10000000000000) = ''NaN year''"
  using expiry_cases[where c = "timedCookie 1699999990" and T = 1699999990000 and now = 1700000000000]
    expiry_invalid_date[where c = "timedCookie 10000000000000" and now = 1700000000000]
  by (simp add: timedCookie_def timed_dates spec_expiryUnit_def startsWith_def)

theorem expiry_buckets_witness:
  "(session (exampleCookie ''sid'' ''x.com'' False) \<or> expires (exampleCookie ''sid'' ''x.com'' False) = Num (- 1))
   \<and> getHumanReadableExpiry 1700000000000 (exampleCookie ''sid'' ''x.com'' False) = ''Session''
   \<and> \<not> session (timedCookie 1699999990) \<and> expires (timedCookie 1699999990) \<noteq> Num (- 1)
   \<and> Date_getTime (times1000 (expires (timedCookie 1699999990))) = Some 1699999990000
   \<and> 1699999990000 < (1700000000000 :: int)
   \<and> getHumanReadableExpiry 1700000000000 (timedCookie 1699999990) = ''Expired''
   \<and> \<not> session (timedCookie 1700002700) \<and> expires (timedCookie 1700002700) \<noteq> Num (- 1)
   \<and> Date_getTime (times1000 (expires (timedCookie 1700002700))) = Some 1700002700000
   \<and> (1700000000000 :: int) \<le> 1700002700000 \<and> 1700002700000 < (1700000000000 :: int) + 3600000
   \<and> 1700002700000 = (1700000000000 :: int) + 45 * 60 * 1000
   \<and> getHumanReadableExpiry 1700000000000 (timedCookie 1700002700) = ''45 minutes''
   \<and> getHumanReadableExpiry 1700000000000 (timedCookie 1700002700) \<noteq> ''Session''
   \<and> \<not> session (timedCookie 1700002730) \<and> expires (timedCookie 1700002730) \<noteq> Num (- 1)
   \<and> Date_getTime (times1000 (expires (timedCookie 1700002730))) = Some 1700002730000
   \<and> (1700000000000 :: int) \<le> 1700002730000 \<and> 1700002730000 < (1700000000000 :: int) + 3600000
   \<and> getHumanReadableExpiry 1700000000000 (timedCookie 1700002730) = ''46 minutes''
   \<and> \<not> session (timedCookie 1700018000) \<and> expires (timedCookie 1700018000) \<noteq> Num (- 1)
   \<and> Date_getTime (times1000 (expires (timedCookie 1700018000))) = Some 1700018000000
   \<and> (1700000000000 :: int) + 3600000 \<le> 1700018000000 \<and> 1700018000000 < (1700000000000 :: int) + 86400000
   \<and> getHumanReadableExpiry 1700000000000 (timedCookie 1700018000) = ''5 hours''
   \<and> \<not> session (timedCookie 1700864000) \<and> expires (timedCookie 1700864000) \<noteq> Num (- 1)
   \<and> Date_getTime (times1000 (expires (timedCookie 1700864000))) = Some 1700864000000
   \<and> (1700000000000 :: int) + 86400000 \<le> 1700864000000 \<and> 1700864000000 < (1700000000000 :: int) + 2592000000
   \<and> getHumanReadableExpiry 1700000000000 (timedCookie 1700864000) = ''10 days''
   \<and> \<not> session (timedCookie 1707776000) \<and> expires (timedCookie 1707776000) \<noteq> Num (- 1)
   \<and> Date_getTime (times1000 (expires (timedCookie 1707776000))) = Some 1707776000000
   \<and> (1700000000000 :: int) + 2592000000 \<le> 1707776000000 \<and> 1707776000000 < (1700000000000 :: int) + 31536000000
   \<and> getHumanReadableExpiry 1700000000000 (timedCookie 1707776000) = ''3 months''
   \<and> \<not> session (timedCookie 1731536000) \<and> expires (timedCookie 1731536000) \<noteq> Num (- 1)
   \<and> Date_getTime (times1000 (expires (timedCookie 1731536000))) = Some 1731536000000
   \<and> (1700000000000 :: int) + 31536000000 \<le> 1731536000000
   \<and> getHumanReadableExpiry 1700000000000 (timedCookie 1731536000) = ''1 year''
   \<and> \<not> session (timedCookie 1736266400) \<and> expires (timedCookie 1736266400) \<noteq> Num (- 1)
   \<and> Date_getTime (times1000 (expires (timedCookie 1736266400))) = Some 1736266400000
   \<and> (1700000000000 :: int) + 31536000000 \<le> 1736266400000
   \<and> getHumanReadableExpiry 1700000000000 (timedCookie 1736266400) = ''1.1 years''"
  using expiry_buckets[where c = "exampleCookie ''sid'' ''x.com'' False" and now = 1700000000000 and T = 0]
    expiry_buckets[where c = "timedCookie 1699999990" and now = 1700000000000 and T = 1699999990000]
    expiry_buckets[where c = "timedCookie 1700002700" and now = 1700000000000 and T = 1700002700000]
    expiry_buckets[where c = "timedCookie 1700002730" and now = 1700000000000 and T = 1700002730000]
    expiry_buckets[where c = "timedCookie 1700018000" and now = 1700000000000 and T = 1700018000000]
    expiry_buckets[where c = "timedCookie 1700864000" and now = 1700000000000 and T = 1700864000000]
    expiry_buckets[where c = "timedCookie 1707776000" and now = 1700000000000 and T = 1707776000000]
    expiry_buckets[where c = "timedCookie 1731536000" and now = 1700000000000 and T = 1731536000000]
    expiry_buckets[where c = "timedCookie 1736266400" and now = 1700000000000 and T = 1736266400000]
  by (simp add: exampleCookie_def timedCookie_def timed_dates years_examples
      showInt_def showNat.simps digit_char_def)

section \<open>Properties of the classification and of the report\<close>

lemma analysisMapOf_lookup:
  "map_of (analysisMapOf agg) k = List.find (\<lambda>a. a_key a = k) (rev agg)"
  unfolding analysisMapOf_def
  by (induction agg rule: rev_induct) (auto simp: update_conv')

lemma field_or_status: "field_or (map_of (analysisMapOf agg) k) a_complianceStatus ''Unknown'' = echoedStatus agg k"
  by (simp add: field_or_def echoedStatus_def analysisMapOf_lookup)

lemma field_or_category: "field_or (map_of (analysisMapOf agg) k) a_category ''Unknown'' = echoedCategory agg k"
  by (simp add: field_or_def echoedCategory_def analysisMapOf_lookup)

lemma aggregatedAnalysis0_nonempty:
  "aggregatedAnalysis0 ai cr \<noteq> [] \<Longrightarrow> \<not> (allCookieMap0 cr = [] \<and> allTrackerMap0 cr = [])"
  by (auto simp: aggregatedAnalysis0_def batchesOf.simps)

text \<open>
  Claim C1, as amended. In part_000 and part_001 no function of the back end computes the
  compliance status: the four priority rules are sentences of the prompt, and the report
  copies the status that the oracle returned. For every cookie, tracker and storage item
  of a report, \<^verbatim>\<open>complianceStatus\<close> is the status of the last aggregated answer that
  carries the record's key, and \<^verbatim>\<open>Unknown\<close> when there is none or its status is empty;
  neither the category nor the observed states enter.
\<close>

theorem verdict_is_oracle_echo:
  "(aggregatedAnalysis0 ai0 cr0 \<noteq> [] \<and> complianceCall = Inr complianceAnalysis \<longrightarrow>
      map_sum id (map ci_complianceStatus \<circ> cookies)
          (scanAnalysis0 url scannedUrlHostname now ai0 complianceCall cr0)
        = Inr (map (\<lambda>c. echoedStatus (aggregatedAnalysis0 ai0 cr0) (cookieKey (data c)))
                 (map snd (allCookieMap0 cr0)))
    \<and> map_sum id (map tr_complianceStatus \<circ> trackers)
          (scanAnalysis0 url scannedUrlHostname now ai0 complianceCall cr0)
        = Inr (map (\<lambda>t. echoedStatus (aggregatedAnalysis0 ai0 cr0) (data t))
                 (map snd (allTrackerMap0 cr0))))
   \<and> (aggregatedAnalysis1 ai1 cr1 = Inr agg \<and> complianceCall = Inr complianceAnalysis \<longrightarrow>
      map_sum id (map ci_complianceStatus \<circ> uniqueCookies)
          (scanAnalysis1 url scannedUrlHostname now ai1 complianceCall cr1)
        = Inr (map (\<lambda>c. echoedStatus agg (cookieKey (data c))) (map snd (allCookieMap1 cr1)))
    \<and> map_sum id (map tk_complianceStatus \<circ> uniqueTrackers)
          (scanAnalysis1 url scannedUrlHostname now ai1 complianceCall cr1)
        = Inr (map (\<lambda>t. echoedStatus agg (req_url (data t))) (uniqueTrackersForAnalysis cr1))
    \<and> map_sum id (map lsi_complianceStatus \<circ> uniqueLocalStorage)
          (scanAnalysis1 url scannedUrlHostname now ai1 complianceCall cr1)
        = Inr (map (\<lambda>s. echoedStatus agg (localStorageKey (data s))) (map snd (allLocalStorageMap cr1))))"
proof (intro conjI impI)
  assume a: "aggregatedAnalysis0 ai0 cr0 \<noteq> [] \<and> complianceCall = Inr complianceAnalysis"
  then have ne: "\<not> (allCookieMap0 cr0 = [] \<and> allTrackerMap0 cr0 = [])"
    using aggregatedAnalysis0_nonempty by blast
  show "map_sum id (map ci_complianceStatus \<circ> cookies)
          (scanAnalysis0 url scannedUrlHostname now ai0 complianceCall cr0)
        = Inr (map (\<lambda>c. echoedStatus (aggregatedAnalysis0 ai0 cr0) (cookieKey (data c)))
                 (map snd (allCookieMap0 cr0)))"
    using a ne by (simp add: scanAnalysis0_def Let_def finalEnrichedCookie0_def field_or_status)
  show "map_sum id (map tr_complianceStatus \<circ> trackers)
          (scanAnalysis0 url scannedUrlHostname now ai0 complianceCall cr0)
        = Inr (map (\<lambda>t. echoedStatus (aggregatedAnalysis0 ai0 cr0) (data t))
                 (map snd (allTrackerMap0 cr0)))"
    using a ne by (simp add: scanAnalysis0_def Let_def finalEnrichedTracker0_def field_or_status)
next
  assume a: "aggregatedAnalysis1 ai1 cr1 = Inr agg \<and> complianceCall = Inr complianceAnalysis"
  show "map_sum id (map ci_complianceStatus \<circ> uniqueCookies)
          (scanAnalysis1 url scannedUrlHostname now ai1 complianceCall cr1)
        = Inr (map (\<lambda>c. echoedStatus agg (cookieKey (data c))) (map snd (allCookieMap1 cr1)))"
    using a by (simp add: scanAnalysis1_def Let_def uniqueCookie1_def field_or_status)
  show "map_sum id (map tk_complianceStatus \<circ> uniqueTrackers)
          (scanAnalysis1 url scannedUrlHostname now ai1 complianceCall cr1)
        = Inr (map (\<lambda>t. echoedStatus agg (req_url (data t))) (uniqueTrackersForAnalysis cr1))"
    using a by (simp add: scanAnalysis1_def Let_def uniqueTracker1_def field_or_status)
  show "map_sum id (map lsi_complianceStatus \<circ> uniqueLocalStorage)
          (scanAnalysis1 url scannedUrlHostname now ai1 complianceCall cr1)
        = Inr (map (\<lambda>s. echoedStatus agg (localStorageKey (data s))) (map snd (allLocalStorageMap cr1)))"
    using a by (simp add: scanAnalysis1_def Let_def uniqueLocalStorage1_def field_or_status)
qed

lemma ex_agg0: "aggregatedAnalysis0 (answeringOracle0 c v) exampleCrawled0 =
   [\<lparr>a_key = ''_ga|.example.com|/'', a_category = c, a_purpose = '''', a_complianceStatus = v\<rparr>]"
  by (simp add: aggregatedAnalysis0_def exampleCrawled0_def batchesOf.simps analyzeBatch_def
      analyzeBatchFrom.simps answeringOracle0_def)

lemma ex_agg1: "aggregatedAnalysis1 (answeringOracle1 c v) exampleCrawled1 =
   Inr [\<lparr>a_key = ''_ga|.example.com|/'', a_category = c, a_purpose = '''', a_complianceStatus = v, a_remediation = ''''\<rparr>]"
  by (simp add: aggregatedAnalysis1_def exampleCrawled1_def batchesOf.simps analyzeBatch_def
      analyzeBatchFrom.simps answeringOracle1_def uniqueTrackersForAnalysis_def)

lemma ex_cookies0: "allCookieMap0 exampleCrawled0 =
    [(''_ga|.example.com|/'', \<lparr>states = [''pre-consent'', ''post-rejection''],
        data = exampleCookie ''_ga'' ''.example.com'' False\<rparr>)]"
  "allTrackerMap0 exampleCrawled0 = []"
  by (simp_all add: exampleCrawled0_def)

lemma ex_cookies1: "allCookieMap1 exampleCrawled1 =
    [(''_ga|.example.com|/'', \<lparr>states = [''pre-consent'', ''post-rejection''],
        data = exampleCookie ''_ga'' ''.example.com'' False,
        pageUrls = [''https://www.example.com/'']\<rparr>)]"
  by (simp add: exampleCrawled1_def)

lemma ex_key: "cookieKey (exampleCookie ''_ga'' ''.example.com'' False) = ''_ga|.example.com|/''"
  by (simp add: cookieKey_def exampleCookie_def)

text \<open>
  The claim as stated fails. An oracle that answers \<^verbatim>\<open>Marketing\<close> and \<^verbatim>\<open>Compliant\<close> for a
  cookie seen before consent and after rejection makes the report of part_000 say
  \<^verbatim>\<open>Compliant\<close>, where the rules give \<^verbatim>\<open>Pre-Consent Violation\<close>; one that answers
  \<^verbatim>\<open>Necessary\<close> and \<^verbatim>\<open>Pre-Consent Violation\<close> makes the report of part_001 show a
  violation for a necessary cookie.
\<close>

theorem verdict_is_oracle_echo_counterexample:
  "map_sum id (map ci_category \<circ> cookies)
      (scanAnalysis0 ''https://www.example.com'' ''www.example.com'' 0
         (answeringOracle0 ''Marketing'' ''Compliant'') (Inr exampleCompliance) exampleCrawled0)
     = Inr [''Marketing'']
   \<and> map states (map snd (allCookieMap0 exampleCrawled0)) = [[''pre-consent'', ''post-rejection'']]
   \<and> map_sum id (map ci_complianceStatus \<circ> cookies)
      (scanAnalysis0 ''https://www.example.com'' ''www.example.com'' 0
         (answeringOracle0 ''Marketing'' ''Compliant'') (Inr exampleCompliance) exampleCrawled0)
     = Inr [''Compliant'']
   \<and> spec_resolve ''Marketing'' [''pre-consent'', ''post-rejection''] = ''Pre-Consent Violation''
   \<and> map_sum id (map ci_category \<circ> uniqueCookies)
      (scanAnalysis1 ''https://www.example.com'' ''www.example.com'' 0
         (answeringOracle1 ''Necessary'' ''Pre-Consent Violation'') (Inr exampleCompliance) exampleCrawled1)
     = Inr [''Necessary'']
   \<and> map_sum id (map ci_complianceStatus \<circ> uniqueCookies)
      (scanAnalysis1 ''https://www.example.com'' ''www.example.com'' 0
         (answeringOracle1 ''Necessary'' ''Pre-Consent Violation'') (Inr exampleCompliance) exampleCrawled1)
     = Inr [''Pre-Consent Violation'']
   \<and> spec_resolve ''Necessary'' [''pre-consent'', ''post-rejection''] = ''Compliant''"
  by (simp add: scanAnalysis0_def scanAnalysis1_def ex_agg0 ex_agg1 Let_def finalEnrichedCookie0_def
      uniqueCookie1_def field_or_status field_or_category echoedStatus_def echoedCategory_def or_else_def
      spec_resolve_def ex_cookies0 ex_cookies1 ex_key)

theorem verdict_is_oracle_echo_witness:
  "aggregatedAnalysis0 (answeringOracle0 ''Marketing'' ''Compliant'') exampleCrawled0 \<noteq> []
   \<and> map_sum id (map ci_complianceStatus \<circ> cookies)
      (scanAnalysis0 ''https://www.example.com'' ''www.example.com'' 0
         (answeringOracle0 ''Marketing'' ''Compliant'') (Inr exampleCompliance) exampleCrawled0)
     = Inr [''Compliant'']
   \<and> aggregatedAnalysis1 (answeringOracle1 ''Analytics'' '''') exampleCrawled1
       = Inr [\<lparr>a_key = ''_ga|.example.com|/'', a_category = ''Analytics'', a_purpose = '''',
               a_complianceStatus = '''', a_remediation = ''''\<rparr>]
   \<and> map_sum id (map ci_complianceStatus \<circ> uniqueCookies)
      (scanAnalysis1 ''https://www.example.com'' ''www.example.com'' 0
         (answeringOracle1 ''Analytics'' '''') (Inr exampleCompliance) exampleCrawled1)
     = Inr [''Unknown'']"
  using verdict_is_oracle_echo[where ?ai0.0 = "answeringOracle0 ''Marketing'' ''Compliant''"
      and ?cr0.0 = exampleCrawled0 and complianceCall = "Inr exampleCompliance"
      and complianceAnalysis = exampleCompliance
      and ?ai1.0 = "answeringOracle1 ''Analytics'' ''''" and ?cr1.0 = exampleCrawled1
      and agg = "[\<lparr>a_key = ''_ga|.example.com|/'', a_category = ''Analytics'', a_purpose = '''',
               a_complianceStatus = '''', a_remediation = ''''\<rparr>]"
      and url = "''https://www.example.com''" and scannedUrlHostname = "''www.example.com''" and now = 0]
  by (simp add: ex_agg0 ex_agg1 echoedStatus_def or_else_def ex_cookies0 ex_cookies1 ex_key)

lemma batchLoop0_all_fail:
  "(\<And>b. \<exists>msg. analyzeBatch ai b = Inl msg) \<Longrightarrow> batchLoop0 ai i bs agg = agg"
proof (induction bs arbitrary: i agg)
  case Nil
  then show ?case by simp
next
  case (Cons b bs)
  from Cons.prems obtain msg where "analyzeBatch ai i = Inl msg" by blast
  then show ?case using Cons by simp
qed

lemma failingOracle_fails: "analyzeBatch failingOracle b = Inl ''boom''"
  by (simp add: analyzeBatch_def analyzeBatchFrom.simps failingOracle_def)

lemma endsWith_iff: "endsWith s p \<longleftrightarrow> (\<exists>pre. s = pre @ p)"
proof
  assume "endsWith s p"
  then have "s = take (length s - length p) s @ p"
    by (metis append_take_drop_id endsWith_def)
  then show "\<exists>pre. s = pre @ p" by blast
next
  assume "\<exists>pre. s = pre @ p"
  then show "endsWith s p" by (auto simp: endsWith_def)
qed

lemma ex_domain: "domain (exampleCookie n d s) = d"
  by (simp add: exampleCookie_def)

lemma cookieParty_First_iff:
  "cookieParty scannedUrlHostname cookieDomain = First \<longleftrightarrow>
     (\<exists>pre. (if startsWith cookieDomain ''.'' then cookieDomain else ''.'' @ cookieDomain)
        = pre @ ''.'' @ stripWww scannedUrlHostname)"
  by (simp add: cookieParty_def Let_def endsWith_iff)

text \<open>
  Claim C10 (party in the fallback report). When every classifier batch still fails after
  its retries and there is something to analyse, part_000 answers with its fallback report,
  and there the party of every cookie is \<^verbatim>\<open>Third\<close> exactly when the stored domain starts
  with a dot and \<^verbatim>\<open>First\<close> otherwise. This is not the rule of the normal report: for the
  cookie of \<^verbatim>\<open>.example.com\<close> seen on \<^verbatim>\<open>www.example.com\<close> the fallback report says
  \<^verbatim>\<open>Third\<close> and the normal report says \<^verbatim>\<open>First\<close>.
\<close>

theorem fallback_party_by_leading_dot:
  "((\<forall>b. \<exists>msg. analyzeBatch ai b = Inl msg) \<and> \<not> (allCookieMap0 cr = [] \<and> allTrackerMap0 cr = []) \<longrightarrow>
      map_sum id (map ci_party \<circ> cookies) (scanAnalysis0 url scannedUrlHostname now ai complianceCall cr)
        = Inr (map (\<lambda>c. if startsWith (domain (data c)) ''.'' then Third else First)
                 (map snd (allCookieMap0 cr))))
   \<and> map_sum id (map ci_party \<circ> cookies)
        (scanAnalysis0 ''https://www.example.com'' ''www.example.com'' 0 failingOracle
           (Inr exampleCompliance) exampleCrawled0) = Inr [Third]
   \<and> map_sum id (map ci_party \<circ> cookies)
        (scanAnalysis0 ''https://www.example.com'' ''www.example.com'' 0
           (answeringOracle0 ''Analytics'' ''Pre-Consent Violation'')
           (Inr exampleCompliance) exampleCrawled0) = Inr [First]"
proof (intro conjI impI)
  assume a: "(\<forall>b. \<exists>msg. analyzeBatch ai b = Inl msg) \<and> \<not> (allCookieMap0 cr = [] \<and> allTrackerMap0 cr = [])"
  then have "aggregatedAnalysis0 ai cr = []"
    by (simp add: aggregatedAnalysis0_def batchLoop0_all_fail)
  then show "map_sum id (map ci_party \<circ> cookies) (scanAnalysis0 url scannedUrlHostname now ai complianceCall cr)
        = Inr (map (\<lambda>c. if startsWith (domain (data c)) ''.'' then Third else First)
                 (map snd (allCookieMap0 cr)))"
    using a by (simp add: scanAnalysis0_def fallbackCookie0_def fallbackParty_def)
next
  have "aggregatedAnalysis0 failingOracle exampleCrawled0 = []"
    by (simp add: aggregatedAnalysis0_def batchLoop0_all_fail failingOracle_fails)
  then show "map_sum id (map ci_party \<circ> cookies)
        (scanAnalysis0 ''https://www.example.com'' ''www.example.com'' 0 failingOracle
           (Inr exampleCompliance) exampleCrawled0) = Inr [Third]"
    by (simp add: scanAnalysis0_def ex_cookies0 fallbackCookie0_def fallbackParty_def ex_domain
        startsWith_def)
next
  show "map_sum id (map ci_party \<circ> cookies)
        (scanAnalysis0 ''https://www.example.com'' ''www.example.com'' 0
           (answeringOracle0 ''Analytics'' ''Pre-Consent Violation'')
           (Inr exampleCompliance) exampleCrawled0) = Inr [First]"
    by (simp add: scanAnalysis0_def ex_agg0 ex_cookies0 finalEnrichedCookie0_def Let_def ex_domain
        cookieParty_def stripWww_def startsWith_def endsWith_def)
qed

theorem fallback_party_by_leading_dot_witness:
  "(\<forall>b. \<exists>msg. analyzeBatch (failingOracle :: nat \<Rightarrow> nat \<Rightarrow> Analysis0 attempt) b = Inl msg)
   \<and> \<not> (allCookieMap0 exampleCrawled0 = [] \<and> allTrackerMap0 exampleCrawled0 = [])
   \<and> map_sum id (map ci_party \<circ> cookies)
        (scanAnalysis0 ''https://www.example.com'' ''www.example.com'' 0 failingOracle
           (Inr exampleCompliance) exampleCrawled0)
      = Inr (map (\<lambda>c. if startsWith (domain (data c)) ''.'' then Third else First)
               (map snd (allCookieMap0 exampleCrawled0)))"
  using fallback_party_by_leading_dot[of failingOracle exampleCrawled0 "''https://www.example.com''"
      "''www.example.com''" 0 "Inr exampleCompliance"]
  by (simp add: failingOracle_fails ex_cookies0)

text \<open>
  Claim C7, as amended. In the normal report of part_000 and of part_001 the party of every
  cookie is \<^const>\<open>cookieParty\<close> of the scanned host name and the cookie's domain: \<^verbatim>\<open>First\<close>
  exactly when the domain, with a dot put in front unless it has one, ends with a dot
  followed by the scanned host name without a leading \<^verbatim>\<open>www.\<close>, and \<^verbatim>\<open>Third\<close> otherwise.
  The host name is not reduced to a registrable domain. The two examples of the claim
  hold: on \<^verbatim>\<open>www.example.com\<close> the domain \<^verbatim>\<open>.example.com\<close> is first party and
  \<^verbatim>\<open>.ads.example-cdn.net\<close> is third party.
\<close>

theorem party_by_hostname_suffix:
  "(aggregatedAnalysis0 ai0 cr0 \<noteq> [] \<and> complianceCall = Inr complianceAnalysis \<longrightarrow>
      map_sum id (map ci_party \<circ> cookies)
          (scanAnalysis0 url scannedUrlHostname now ai0 complianceCall cr0)
        = Inr (map (\<lambda>c. cookieParty scannedUrlHostname (domain (data c))) (map snd (allCookieMap0 cr0))))
   \<and> (aggregatedAnalysis1 ai1 cr1 = Inr agg \<and> complianceCall = Inr complianceAnalysis \<longrightarrow>
      map_sum id (map ci_party \<circ> uniqueCookies)
          (scanAnalysis1 url scannedUrlHostname now ai1 complianceCall cr1)
        = Inr (map (\<lambda>c. cookieParty scannedUrlHostname (domain (data c))) (map snd (allCookieMap1 cr1))))
   \<and> (cookieParty scannedUrlHostname cookieDomain = First \<longleftrightarrow>
        (\<exists>pre. (if startsWith cookieDomain ''.'' then cookieDomain else ''.'' @ cookieDomain)
           = pre @ ''.'' @ stripWww scannedUrlHostname))
   \<and> (cookieParty scannedUrlHostname cookieDomain = Third \<longleftrightarrow>
        cookieParty scannedUrlHostname cookieDomain \<noteq> First)
   \<and> cookieParty ''www.example.com'' ''.example.com'' = First
   \<and> cookieParty ''www.example.com'' ''.ads.example-cdn.net'' = Third"
proof (intro conjI impI)
  assume a: "aggregatedAnalysis0 ai0 cr0 \<noteq> [] \<and> complianceCall = Inr complianceAnalysis"
  then have ne: "\<not> (allCookieMap0 cr0 = [] \<and> allTrackerMap0 cr0 = [])"
    using aggregatedAnalysis0_nonempty by blast
  show "map_sum id (map ci_party \<circ> cookies)
          (scanAnalysis0 url scannedUrlHostname now ai0 complianceCall cr0)
        = Inr (map (\<lambda>c. cookieParty scannedUrlHostname (domain (data c))) (map snd (allCookieMap0 cr0)))"
    using a ne by (simp add: scanAnalysis0_def Let_def finalEnrichedCookie0_def)
next
  assume a: "aggregatedAnalysis1 ai1 cr1 = Inr agg \<and> complianceCall = Inr complianceAnalysis"
  show "map_sum id (map ci_party \<circ> uniqueCookies)
          (scanAnalysis1 url scannedUrlHostname now ai1 complianceCall cr1)
        = Inr (map (\<lambda>c. cookieParty scannedUrlHostname (domain (data c))) (map snd (allCookieMap1 cr1)))"
    using a by (simp add: scanAnalysis1_def Let_def uniqueCookie1_def)
next
  show "cookieParty scannedUrlHostname cookieDomain = First \<longleftrightarrow>
        (\<exists>pre. (if startsWith cookieDomain ''.'' then cookieDomain else ''.'' @ cookieDomain)
           = pre @ ''.'' @ stripWww scannedUrlHostname)"
    by (rule cookieParty_First_iff)
next
  show "cookieParty scannedUrlHostname cookieDomain = Third \<longleftrightarrow>
        cookieParty scannedUrlHostname cookieDomain \<noteq> First"
    by (cases "cookieParty scannedUrlHostname cookieDomain") simp_all
next
  show "cookieParty ''www.example.com'' ''.example.com'' = First"
    by (simp add: cookieParty_def stripWww_def startsWith_def endsWith_def)
next
  show "cookieParty ''www.example.com'' ''.ads.example-cdn.net'' = Third"
    by (simp add: cookieParty_def stripWww_def startsWith_def endsWith_def)
qed

theorem party_by_hostname_suffix_witness:
  "aggregatedAnalysis0 (answeringOracle0 ''Analytics'' ''Compliant'') exampleCrawled0 \<noteq> []
   \<and> map_sum id (map ci_party \<circ> cookies)
        (scanAnalysis0 ''https://www.example.com'' ''www.example.com'' 0
           (answeringOracle0 ''Analytics'' ''Compliant'') (Inr exampleCompliance) exampleCrawled0)
      = Inr [cookieParty ''www.example.com'' ''.example.com'']
   \<and> aggregatedAnalysis1 (answeringOracle1 ''Analytics'' ''Compliant'') exampleCrawled1
       = Inr [\<lparr>a_key = ''_ga|.example.com|/'', a_category = ''Analytics'', a_purpose = '''',
               a_complianceStatus = ''Compliant'', a_remediation = ''''\<rparr>]
   \<and> map_sum id (map ci_party \<circ> uniqueCookies)
        (scanAnalysis1 ''https://www.example.com'' ''www.example.com'' 0
           (answeringOracle1 ''Analytics'' ''Compliant'') (Inr exampleCompliance) exampleCrawled1)
      = Inr [cookieParty ''www.example.com'' ''.example.com'']"
  using party_by_hostname_suffix[where ?ai0.0 = "answeringOracle0 ''Analytics'' ''Compliant''"
      and ?cr0.0 = exampleCrawled0 and complianceCall = "Inr exampleCompliance"
      and complianceAnalysis = exampleCompliance
      and ?ai1.0 = "answeringOracle1 ''Analytics'' ''Compliant''" and ?cr1.0 = exampleCrawled1
      and agg = "[\<lparr>a_key = ''_ga|.example.com|/'', a_category = ''Analytics'', a_purpose = '''',
               a_complianceStatus = ''Compliant'', a_remediation = ''''\<rparr>]"
      and url = "''https://www.example.com''" and scannedUrlHostname = "''www.example.com''" and now = 0]
  by (simp add: ex_agg0 ex_agg1 ex_cookies0 ex_cookies1 ex_domain)

text \<open>
  The claim as stated fails when the scanned host is a subdomain other than \<^verbatim>\<open>www\<close>: on
  \<^verbatim>\<open>ads.example.com\<close>, whose registrable domain is \<^verbatim>\<open>example.com\<close>, a cookie of
  \<^verbatim>\<open>.example.com\<close> is reported as third party by both servers, while the comparison with
  the registrable domain makes it first party.
\<close>

theorem party_by_registrable_domain_counterexample:
  "spec_registrableDomain ''ads.example.com'' = ''example.com''
   \<and> spec_party ''ads.example.com'' ''.example.com'' = First
   \<and> cookieParty ''ads.example.com'' ''.example.com'' = Third
   \<and> map_sum id (map ci_party \<circ> cookies)
        (scanAnalysis0 ''https://ads.example.com'' ''ads.example.com'' 0
           (answeringOracle0 ''Analytics'' ''Compliant'') (Inr exampleCompliance) exampleCrawled0)
      = Inr [Third]
   \<and> map_sum id (map ci_party \<circ> uniqueCookies)
        (scanAnalysis1 ''https://ads.example.com'' ''ads.example.com'' 0
           (answeringOracle1 ''Analytics'' ''Compliant'') (Inr exampleCompliance) exampleCrawled1)
      = Inr [Third]"
  by (simp add: spec_registrableDomain_def spec_party_def cookieParty_def stripWww_def startsWith_def
      endsWith_def scanAnalysis0_def scanAnalysis1_def ex_agg0 ex_agg1 ex_cookies0 ex_cookies1
      finalEnrichedCookie0_def uniqueCookie1_def Let_def ex_domain)

subsection \<open>A batch that keeps failing\<close>

lemma batchLoop1_fails:
  "i \<le> b \<Longrightarrow> b < i + length bs \<Longrightarrow> analyzeBatch ai b = Inl msg \<Longrightarrow>
     \<exists>m. batchLoop1 ai i bs agg = Inl m"
proof (induction bs arbitrary: i agg)
  case Nil
  then show ?case by simp
next
  case (Cons x xs)
  show ?case
  proof (cases "analyzeBatch ai i")
    case (Inl e)
    then show ?thesis by simp
  next
    case (Inr r)
    with Cons.prems have "i \<noteq> b" by auto
    with Cons.prems have "Suc i \<le> b" "b < Suc i + length xs" by auto
    from Cons.IH[OF this Cons.prems(3)] Inr show ?thesis by simp
  qed
qed

lemma batchLoop0_keeps:
  "set agg \<subseteq> set (batchLoop0 ai i bs agg)"
proof (induction bs arbitrary: i agg)
  case Nil
  then show ?case by simp
next
  case (Cons x xs)
  show ?case
  proof (cases "analyzeBatch ai i")
    case (Inl e)
    then show ?thesis using Cons.IH[of agg "Suc i"] by simp
  next
    case (Inr r)
    then show ?thesis using Cons.IH[of "agg @ r" "Suc i"] by auto
  qed
qed

lemma batchLoop0_processes_every_batch:
  "i \<le> b \<Longrightarrow> b < i + length bs \<Longrightarrow> analyzeBatch ai b = Inr r \<Longrightarrow>
     set r \<subseteq> set (batchLoop0 ai i bs agg)"
proof (induction bs arbitrary: i agg)
  case Nil
  then show ?case by simp
next
  case (Cons x xs)
  show ?case
  proof (cases "i = b")
    case True
    then show ?thesis using Cons.prems(3) batchLoop0_keeps[of "agg @ r" ai "Suc i" xs] by simp
  next
    case False
    with Cons.prems have "Suc i \<le> b" "b < Suc i + length xs" by auto
    from Cons.IH[OF this Cons.prems(3)] show ?thesis
      by (cases "analyzeBatch ai i") simp_all
  qed
qed

lemma scanAnalysis0_contains_failures:
  assumes "aggregatedAnalysis0 ai cr = [] \<or> complianceCall = Inr complianceAnalysis"
  shows "\<exists>r. scanAnalysis0 url scannedUrlHostname now ai complianceCall cr = Inr r
            \<and> map ci_key (cookies r) = map (\<lambda>c. cookieKey (data c)) (map snd (allCookieMap0 cr))
            \<and> map tr_key (trackers r) = map data (map snd (allTrackerMap0 cr))"
  using assms
  by (auto simp: scanAnalysis0_def Let_def fallbackCookie0_def fallbackTracker0_def
      finalEnrichedCookie0_def finalEnrichedTracker0_def)

lemma finalEnrichedCookie0_unanalyzed:
  assumes "\<And>a. a \<in> set agg \<Longrightarrow> a_key a \<noteq> cookieKey (data c)"
  shows "ci_category (finalEnrichedCookie0 (analysisMapOf agg) h now c) = ''Unknown''
       \<and> ci_complianceStatus (finalEnrichedCookie0 (analysisMapOf agg) h now c) = ''Unknown''
       \<and> ci_purpose (finalEnrichedCookie0 (analysisMapOf agg) h now c) = ''No purpose determined.''"
proof -
  have "List.find (\<lambda>a. a_key a = cookieKey (data c)) (rev agg) = None"
    using assms by (auto simp: find_None_iff)
  then show ?thesis
    by (simp add: finalEnrichedCookie0_def Let_def field_or_def analysisMapOf_lookup)
qed

text \<open>
  Claim C4 at a failing input. A crawl of part_001 found one cookie and the oracle fails on
  every attempt: the error of the batch leaves the batch loop, and the scan answers with
  the 500 message instead of a report. On the same input part_000 answers with a report
  in which the cookie has the category \<^verbatim>\<open>Unknown\<close>.
\<close>

theorem batch_failure_aborts_scan1:
  "scanAnalysis1 ''https://www.example.com'' ''www.example.com'' 0 failingOracle
      (Inr exampleCompliance) exampleCrawled1
     = Inl ''Failed to scan https://www.example.com. boom''
   \<and> map_sum id (map ci_category \<circ> cookies)
        (scanAnalysis0 ''https://www.example.com'' ''www.example.com'' 0 failingOracle
           (Inr exampleCompliance) exampleCrawled0) = Inr [''Unknown'']"
proof
  have "aggregatedAnalysis1 failingOracle exampleCrawled1 = Inl ''boom''"
    by (simp add: aggregatedAnalysis1_def ex_cookies1 batchesOf.simps failingOracle_fails
        uniqueTrackersForAnalysis_def exampleCrawled1_def)
  then show "scanAnalysis1 ''https://www.example.com'' ''www.example.com'' 0 failingOracle
      (Inr exampleCompliance) exampleCrawled1 = Inl ''Failed to scan https://www.example.com. boom''"
    by (simp add: scanAnalysis1_def scanFailed1_def)
next
  have "aggregatedAnalysis0 failingOracle exampleCrawled0 = []"
    by (simp add: aggregatedAnalysis0_def batchLoop0_all_fail failingOracle_fails)
  then show "map_sum id (map ci_category \<circ> cookies)
        (scanAnalysis0 ''https://www.example.com'' ''www.example.com'' 0 failingOracle
           (Inr exampleCompliance) exampleCrawled0) = Inr [''Unknown'']"
    by (simp add: scanAnalysis0_def ex_cookies0 fallbackCookie0_def)
qed

section \<open>Properties of the collector\<close>

lemma requestListener0_keeps: "set ts \<subseteq> set (requestListener0 ts u)"
  by (auto simp: requestListener0_def set_add_def split: option.splits)

lemma foldl_requestListener0_keeps: "set ts \<subseteq> set (foldl requestListener0 ts us)"
proof (induction us arbitrary: ts)
  case Nil
  then show ?case by simp
next
  case (Cons u us)
  have "set ts \<subseteq> set (requestListener0 ts u)" by (rule requestListener0_keeps)
  also have "\<dots> \<subseteq> set (foldl requestListener0 (requestListener0 ts u) us)" by (rule Cons.IH)
  finally show ?case by simp
qed

lemma collectPageData0_keeps_captured:
  "set (foldl requestListener0 [] (requestsDuringReload run)) \<subseteq> set (snd (collectPageData0 run))"
  by (auto simp: collectPageData0_def Let_def split: option.splits
      dest: subsetD[OF foldl_requestListener0_keeps])

lemma collectPageData1_reload_throws:
  "\<not> reloadOk run \<Longrightarrow>
     collectPageData1 newURL rootHostname run =
       \<lparr>pd_cookies = [], pd_networkRequests = [], pd_localStorageItems = [],
        pd_googleConsentV2 = \<lparr>detected = False, status = ''Error''\<rparr>\<rparr>"
  by (simp add: collectPageData1_def)

text \<open>
  Claim C9 at a failing input. During the reload the page requests
  \<^verbatim>\<open>https://clarity.ms/t\<close>, which the listener of either server captures, and then the
  reload throws. \<^verbatim>\<open>collectPageData\<close> of part_001 returns from its \<^verbatim>\<open>catch\<close> block with an
  empty list of network requests: the captured request is lost. \<^verbatim>\<open>collectPageData\<close> of
  part_000 returns the tracker it captured. Neither of the two throws.
\<close>

theorem collector_drops_partial_data1:
  "foldl (requestListener1 exampleURL ''www.example.com'') [] (requestsDuringReload failingRun1)
     = [\<lparr>req_url = ''https://clarity.ms/t'', req_hostname = ''clarity.ms''\<rparr>]
   \<and> reloadOk failingRun1 = False
   \<and> pd_networkRequests (collectPageData1 exampleURL ''www.example.com'' failingRun1) = []
   \<and> foldl requestListener0 [] (requestsDuringReload failingRun) = [''clarity.ms|https://clarity.ms/t'']
   \<and> snd (collectPageData0 failingRun) = [''clarity.ms|https://clarity.ms/t'']"
  by code_simp

section \<open>Properties of the crawl loop\<close>

lemma navigated_append: "navigated (es @ fs) = navigated es @ navigated fs"
  by (induction es rule: navigated.induct) auto

lemma gotoTargets_append: "gotoTargets (es @ fs) = gotoTargets es @ gotoTargets fs"
  by (induction es rule: gotoTargets.induct) auto

lemma noRevisit_append:
  "noRevisit V (es @ fs) = (noRevisit V es \<and> noRevisit (V \<union> set (navigated es)) fs)"
  by (induction V es rule: noRevisit.induct) auto

lemma pushLink0_trace:
  "\<exists>fs. snd (pushLink0 visited qe link) = snd qe @ fs \<and> noRevisit (set visited) fs
        \<and> navigated fs = [] \<and> gotoTargets fs = []"
  by (auto simp: pushLink0_def)

lemma pushLinks0_trace:
  "\<exists>fs. snd (foldl (pushLink0 visited) qe links) = snd qe @ fs \<and> noRevisit (set visited) fs
        \<and> navigated fs = [] \<and> gotoTargets fs = []"
proof (induction links arbitrary: qe)
  case Nil
  then show ?case by simp
next
  case (Cons l ls)
  obtain fs where fs: "snd (pushLink0 visited qe l) = snd qe @ fs" "noRevisit (set visited) fs"
    "navigated fs = []" "gotoTargets fs = []"
    using pushLink0_trace by blast
  obtain gs where gs: "snd (foldl (pushLink0 visited) (pushLink0 visited qe l) ls)
      = snd (pushLink0 visited qe l) @ gs" "noRevisit (set visited) gs"
    "navigated gs = []" "gotoTargets gs = []"
    using Cons.IH by blast
  have "snd (foldl (pushLink0 visited) qe (l # ls)) = snd qe @ (fs @ gs)"
    using fs gs by simp
  moreover have "noRevisit (set visited) (fs @ gs)"
    using fs gs by (simp add: noRevisit_append)
  moreover have "navigated (fs @ gs) = []" "gotoTargets (fs @ gs) = []"
    using fs gs by (simp_all add: navigated_append gotoTargets_append)
  ultimately show ?case by blast
qed

lemma pushLink1_trace:
  "\<exists>fs. snd (pushLink1 visited qe link) = snd qe @ fs \<and> noRevisit (set visited) fs
        \<and> navigated fs = [] \<and> gotoTargets fs = []"
  by (auto simp: pushLink1_def Let_def)

lemma pushLinks1_trace:
  "\<exists>fs. snd (foldl (pushLink1 visited) qe links) = snd qe @ fs \<and> noRevisit (set visited) fs
        \<and> navigated fs = [] \<and> gotoTargets fs = []"
proof (induction links arbitrary: qe)
  case Nil
  then show ?case by simp
next
  case (Cons l ls)
  obtain fs where fs: "snd (pushLink1 visited qe l) = snd qe @ fs" "noRevisit (set visited) fs"
    "navigated fs = []" "gotoTargets fs = []"
    using pushLink1_trace by blast
  obtain gs where gs: "snd (foldl (pushLink1 visited) (pushLink1 visited qe l) ls)
      = snd (pushLink1 visited qe l) @ gs" "noRevisit (set visited) gs"
    "navigated gs = []" "gotoTargets gs = []"
    using Cons.IH by blast
  have "snd (foldl (pushLink1 visited) qe (l # ls)) = snd qe @ (fs @ gs)"
    using fs gs by simp
  moreover have "noRevisit (set visited) (fs @ gs)"
    using fs gs by (simp add: noRevisit_append)
  moreover have "navigated (fs @ gs) = []" "gotoTargets (fs @ gs) = []"
    using fs gs by (simp_all add: navigated_append gotoTargets_append)
  ultimately show ?case by blast
qed

lemma crawlStep0_traced:
  assumes "traced0 newURL rootHostname s"
  shows "traced0 newURL rootHostname (crawlStep0 newURL browse rootHostname s)"
proof (cases "urlsToVisit0 s")
  case Nil
  then show ?thesis using assms by (simp add: crawlStep0_def traced0_def)
next
  case (Cons u rest)
  let ?s1 = "s\<lparr>urlsToVisit0 := rest, tick0 := Suc (tick0 s)\<rparr>"
  have s1: "traced0 newURL rootHostname ?s1" using assms by (simp add: traced0_def)
  show ?thesis
  proof (cases "u = [] \<or> u \<in> set (visitedUrls0 s) \<or> \<not> sameHost newURL rootHostname u")
    case True
    then have "crawlStep0 newURL browse rootHostname s = ?s1"
      using Cons by (auto simp: crawlStep0_def Let_def sameHost_def split: option.splits)
    then show ?thesis using s1 by simp
  next
    case False
    then obtain pageUrl where p: "newURL u = Some pageUrl" "url_hostname pageUrl = rootHostname"
      by (auto simp: sameHost_def split: option.splits)
    from False have fresh: "u \<noteq> []" "u \<notin> set (visitedUrls0 s)" "sameHost newURL rootHostname u"
      by auto
    show ?thesis
    proof (cases "browse (tick0 s) u")
      case GotoFailed
      then have "crawlStep0 newURL browse rootHostname s = ?s1\<lparr>events0 := events0 s @ [Goto u False]\<rparr>"
        using Cons fresh p by (simp add: crawlStep0_def Let_def)
      then show ?thesis using assms fresh
        by (simp add: traced0_def noRevisit_append navigated_append gotoTargets_append)
    next
      case ScanFailed
      then have "crawlStep0 newURL browse rootHostname s =
          ?s1\<lparr>visitedUrls0 := visitedUrls0 s @ [u], events0 := events0 s @ [Goto u True]\<rparr>"
        using Cons fresh p by (simp add: crawlStep0_def Let_def set_add_def)
      then show ?thesis using assms fresh
        by (simp add: traced0_def noRevisit_append navigated_append gotoTargets_append)
    next
      case (Loaded anchors)
      let ?v = "visitedUrls0 s @ [u]"
      let ?qe = "foldl (pushLink0 ?v) (rest, events0 s @ [Goto u True])
                   (extractLinks0 rootHostname anchors)"
      have step: "crawlStep0 newURL browse rootHostname s =
          ?s1\<lparr>urlsToVisit0 := fst ?qe, visitedUrls0 := ?v, events0 := snd ?qe\<rparr>"
        using Cons Loaded fresh p by (simp add: crawlStep0_def Let_def set_add_def)
      obtain fs where fs: "snd ?qe = (events0 s @ [Goto u True]) @ fs" "noRevisit (set ?v) fs"
        "navigated fs = []" "gotoTargets fs = []"
        using pushLinks0_trace[of ?v "(rest, events0 s @ [Goto u True])"] by auto
      show ?thesis using assms fresh fs unfolding step
        by (simp add: traced0_def noRevisit_append navigated_append gotoTargets_append Un_commute)
    qed
  qed
qed

lemma crawl0_traced:
  "traced0 newURL rootHostname s \<Longrightarrow> traced0 newURL rootHostname (crawl0 newURL browse rootHostname MAX_PAGES s)"
proof (induction newURL browse rootHostname MAX_PAGES s rule: crawl0.induct)
  case (1 newURL browse rootHostname MAX_PAGES s)
  show ?case
  proof (cases "length (visitedUrls0 s) < MAX_PAGES \<and> urlsToVisit0 s \<noteq> []")
    case True
    then show ?thesis
      using "1.IH" crawlStep0_traced[OF "1.prems"] by (subst crawl0.simps) simp
  next
    case False
    then show ?thesis using "1.prems" by (subst crawl0.simps) auto
  qed
qed

lemma crawlStep1_traced:
  assumes "traced1 newURL rootHostname s"
  shows "traced1 newURL rootHostname (crawlStep1 newURL browse rootHostname s)"
proof (cases "sort_key qi_priority (urlsToVisit1 s)")
  case Nil
  then show ?thesis using assms by (simp add: crawlStep1_def traced1_def)
next
  case (Cons item rest)
  define u where "u = qi_url item"
  let ?s1 = "s\<lparr>urlsToVisit1 := rest, tick1 := Suc (tick1 s)\<rparr>"
  have s1: "traced1 newURL rootHostname ?s1" using assms by (simp add: traced1_def)
  show ?thesis
  proof (cases "u \<in> set (visitedUrls1 s) \<or> \<not> sameHost newURL rootHostname u")
    case True
    then have "crawlStep1 newURL browse rootHostname s = ?s1"
      using Cons u_def by (auto simp: crawlStep1_def Let_def sameHost_def split: option.splits)
    then show ?thesis using s1 by simp
  next
    case False
    then obtain pageUrl where p: "newURL u = Some pageUrl" "url_hostname pageUrl = rootHostname"
      by (auto simp: sameHost_def split: option.splits)
    from False have fresh: "u \<notin> set (visitedUrls1 s)" "sameHost newURL rootHostname u"
      by auto
    show ?thesis
    proof (cases "browse (tick1 s) u")
      case GotoFailed
      then have "crawlStep1 newURL browse rootHostname s = ?s1\<lparr>events1 := events1 s @ [Goto u False]\<rparr>"
        using Cons u_def[symmetric] fresh p by (simp add: crawlStep1_def Let_def)
      then show ?thesis using assms fresh
        by (simp add: traced1_def noRevisit_append navigated_append gotoTargets_append)
    next
      case ScanFailed
      then have "crawlStep1 newURL browse rootHostname s =
          ?s1\<lparr>visitedUrls1 := visitedUrls1 s @ [u], events1 := events1 s @ [Goto u True]\<rparr>"
        using Cons u_def[symmetric] fresh p by (simp add: crawlStep1_def Let_def set_add_def)
      then show ?thesis using assms fresh
        by (simp add: traced1_def noRevisit_append navigated_append gotoTargets_append)
    next
      case (Loaded anchors)
      let ?v = "visitedUrls1 s @ [u]"
      let ?qe = "foldl (pushLink1 ?v) (rest, events1 s @ [Goto u True])
                   (extractLinks1 rootHostname anchors)"
      have step: "crawlStep1 newURL browse rootHostname s =
          ?s1\<lparr>urlsToVisit1 := fst ?qe, visitedUrls1 := ?v, events1 := snd ?qe\<rparr>"
        using Cons u_def[symmetric] Loaded fresh p by (simp add: crawlStep1_def Let_def set_add_def)
      obtain fs where fs: "snd ?qe = (events1 s @ [Goto u True]) @ fs" "noRevisit (set ?v) fs"
        "navigated fs = []" "gotoTargets fs = []"
        using pushLinks1_trace[of ?v "(rest, events1 s @ [Goto u True])"] by auto
      show ?thesis using assms fresh fs unfolding step
        by (simp add: traced1_def noRevisit_append navigated_append gotoTargets_append Un_commute)
    qed
  qed
qed

lemma crawl1_traced:
  "traced1 newURL rootHostname s \<Longrightarrow> traced1 newURL rootHostname (crawl1 newURL browse rootHostname MAX_PAGES s)"
proof (induction newURL browse rootHostname MAX_PAGES s rule: crawl1.induct)
  case (1 newURL browse rootHostname MAX_PAGES s)
  show ?case
  proof (cases "urlsToVisit1 s \<noteq> [] \<and> length (visitedUrls1 s) < MAX_PAGES")
    case True
    then show ?thesis
      using "1.IH" crawlStep1_traced[OF "1.prems"] by (subst crawl1.simps) simp
  next
    case False
    then show ?thesis using "1.prems" by (subst crawl1.simps) auto
  qed
qed

lemma initial_traced: "traced0 newURL rootHostname (initial0 u)" "traced1 newURL rootHostname (initial1 u)"
  by (simp_all add: traced0_def traced1_def initial0_def initial1_def)

lemma sameHost_registrable:
  "sameHost newURL rootHostname u \<Longrightarrow>
     \<exists>p. newURL u = Some p \<and> url_hostname p = rootHostname
        \<and> spec_registrableDomain (url_hostname p) = spec_registrableDomain rootHostname"
  by (auto simp: sameHost_def split: option.splits)

lemma crawlStep0_goto:
  assumes "urlsToVisit0 s = u # rest"
  shows "gotoTargets (events0 (crawlStep0 newURL browse rootHostname s)) =
           gotoTargets (events0 s)
           @ (if u = [] \<or> u \<in> set (visitedUrls0 s) \<or> \<not> sameHost newURL rootHostname u then [] else [u])"
proof (cases "u = [] \<or> u \<in> set (visitedUrls0 s) \<or> \<not> sameHost newURL rootHostname u")
  case True
  then show ?thesis using assms
    by (auto simp: crawlStep0_def Let_def sameHost_def split: option.splits)
next
  case False
  then obtain pageUrl where p: "newURL u = Some pageUrl" "url_hostname pageUrl = rootHostname"
    by (auto simp: sameHost_def split: option.splits)
  show ?thesis
  proof (cases "browse (tick0 s) u")
    case (Loaded anchors)
    let ?v = "set_add u (visitedUrls0 s)"
    obtain fs where "snd (foldl (pushLink0 ?v) (rest, events0 s @ [Goto u True])
        (extractLinks0 rootHostname anchors)) = (events0 s @ [Goto u True]) @ fs" "gotoTargets fs = []"
      using pushLinks0_trace[of ?v "(rest, events0 s @ [Goto u True])"] by auto
    then show ?thesis using False assms p Loaded
      by (simp add: crawlStep0_def Let_def gotoTargets_append)
  qed (use False assms p in \<open>simp_all add: crawlStep0_def Let_def gotoTargets_append\<close>)
qed

lemma crawlStep1_goto:
  assumes "sort_key qi_priority (urlsToVisit1 s) = item # rest"
  shows "gotoTargets (events1 (crawlStep1 newURL browse rootHostname s)) =
           gotoTargets (events1 s)
           @ (if qi_url item \<in> set (visitedUrls1 s) \<or> \<not> sameHost newURL rootHostname (qi_url item)
              then [] else [qi_url item])"
proof (cases "qi_url item \<in> set (visitedUrls1 s) \<or> \<not> sameHost newURL rootHostname (qi_url item)")
  case True
  then show ?thesis using assms
    by (auto simp: crawlStep1_def Let_def sameHost_def split: option.splits)
next
  case False
  then obtain pageUrl where p: "newURL (qi_url item) = Some pageUrl" "url_hostname pageUrl = rootHostname"
    by (auto simp: sameHost_def split: option.splits)
  show ?thesis
  proof (cases "browse (tick1 s) (qi_url item)")
    case (Loaded anchors)
    let ?v = "set_add (qi_url item) (visitedUrls1 s)"
    obtain fs where "snd (foldl (pushLink1 ?v) (rest, events1 s @ [Goto (qi_url item) True])
        (extractLinks1 rootHostname anchors)) = (events1 s @ [Goto (qi_url item) True]) @ fs"
      "gotoTargets fs = []"
      using pushLinks1_trace[of ?v "(rest, events1 s @ [Goto (qi_url item) True])"] by auto
    then show ?thesis using False assms p Loaded
      by (simp add: crawlStep1_def Let_def gotoTargets_append)
  qed (use False assms p in \<open>simp_all add: crawlStep1_def Let_def gotoTargets_append\<close>)
qed

lemma example_crawl0:
  "crawl0 exampleURL exampleBrowse ''www.example.com'' 10 (initial0 ''https://www.example.com/'') =
     \<lparr>urlsToVisit0 = [],
      visitedUrls0 = [''https://www.example.com/'', ''https://www.example.com/about''],
      events0 = [Goto ''https://www.example.com/'' True, Enqueue ''https://www.example.com/about'',
                 Goto ''https://www.example.com/about'' True],
      tick0 = 2\<rparr>"
  by code_simp

lemma example_crawl1:
  "crawl1 exampleURL exampleBrowse ''www.example.com'' 10 (initial1 ''https://www.example.com/'') =
     \<lparr>urlsToVisit1 = [],
      visitedUrls1 = [''https://www.example.com/'', ''https://www.example.com/about''],
      events1 = [Goto ''https://www.example.com/'' True, Enqueue ''https://www.example.com/about'',
                 Goto ''https://www.example.com/about'' True],
      tick1 = 2\<rparr>"
  by code_simp

text \<open>
  Claim C6 (frontier dedup). For every crawl run of part_000 and of part_001, whatever the
  browser answers and whatever links the pages carry: no \<^verbatim>\<open>page.goto\<close> and no
  \<^verbatim>\<open>urlsToVisit.push\<close> of the run concerns a URL that is in \<^verbatim>\<open>visitedUrls\<close> at that moment;
  \<^verbatim>\<open>visitedUrls\<close> is the list of the URLs whose navigation returned, and no URL occurs in
  it twice. So a visited URL is never enqueued again and never navigated to again, also
  when a later page links to it.
\<close>

theorem frontier_dedup:
  "noRevisit {} (events0 (crawl0 newURL browse rootHostname MAX_PAGES (initial0 u)))
   \<and> navigated (events0 (crawl0 newURL browse rootHostname MAX_PAGES (initial0 u)))
       = visitedUrls0 (crawl0 newURL browse rootHostname MAX_PAGES (initial0 u))
   \<and> distinct (visitedUrls0 (crawl0 newURL browse rootHostname MAX_PAGES (initial0 u)))
   \<and> noRevisit {} (events1 (crawl1 newURL browse rootHostname MAX_PAGES (initial1 u)))
   \<and> navigated (events1 (crawl1 newURL browse rootHostname MAX_PAGES (initial1 u)))
       = visitedUrls1 (crawl1 newURL browse rootHostname MAX_PAGES (initial1 u))
   \<and> distinct (visitedUrls1 (crawl1 newURL browse rootHostname MAX_PAGES (initial1 u)))"
proof -
  have "traced0 newURL rootHostname (crawl0 newURL browse rootHostname MAX_PAGES (initial0 u))"
    by (rule crawl0_traced[OF initial_traced(1)])
  moreover have "traced1 newURL rootHostname (crawl1 newURL browse rootHostname MAX_PAGES (initial1 u))"
    by (rule crawl1_traced[OF initial_traced(2)])
  ultimately show ?thesis by (simp add: traced0_def traced1_def)
qed

theorem frontier_dedup_witness:
  "events0 (crawl0 exampleURL exampleBrowse ''www.example.com'' 10 (initial0 ''https://www.example.com/''))
     = [Goto ''https://www.example.com/'' True, Enqueue ''https://www.example.com/about'',
        Goto ''https://www.example.com/about'' True]
   \<and> noRevisit {} (events0 (crawl0 exampleURL exampleBrowse ''www.example.com'' 10
        (initial0 ''https://www.example.com/'')))
   \<and> distinct (visitedUrls0 (crawl0 exampleURL exampleBrowse ''www.example.com'' 10
        (initial0 ''https://www.example.com/'')))
   \<and> noRevisit {} (events1 (crawl1 exampleURL exampleBrowse ''www.example.com'' 10
        (initial1 ''https://www.example.com/'')))
   \<and> distinct (visitedUrls1 (crawl1 exampleURL exampleBrowse ''www.example.com'' 10
        (initial1 ''https://www.example.com/'')))"
  using frontier_dedup[of exampleURL exampleBrowse "''www.example.com''" 10 "''https://www.example.com/''"]
  by (simp add: example_crawl0)

text \<open>
  Claim C5, as amended. In part_000 and part_001 an iteration navigates to the dequeued URL
  exactly when the URL has not been visited, parses, and has the host name of the root
  URL (in part_000 also: is not the empty string); otherwise the URL is skipped. The test
  is equality of host names, not of registrable domains. Hence every URL that a crawl
  navigates to or visits has the root's host name, and with it the root's registrable
  domain; a URL on another subdomain of the root's registrable domain is skipped.
\<close>

theorem same_host_visiting:
  "(urlsToVisit0 s0 = u0 # rest \<longrightarrow>
      gotoTargets (events0 (crawlStep0 newURL browse rootHostname s0)) =
        gotoTargets (events0 s0)
        @ (if u0 = [] \<or> u0 \<in> set (visitedUrls0 s0) \<or> \<not> sameHost newURL rootHostname u0
           then [] else [u0]))
   \<and> (sort_key qi_priority (urlsToVisit1 s1) = item # rest1 \<longrightarrow>
      gotoTargets (events1 (crawlStep1 newURL browse rootHostname s1)) =
        gotoTargets (events1 s1)
        @ (if qi_url item \<in> set (visitedUrls1 s1) \<or> \<not> sameHost newURL rootHostname (qi_url item)
           then [] else [qi_url item]))
   \<and> (\<forall>v \<in> set (gotoTargets (events0 (crawl0 newURL browse rootHostname MAX_PAGES (initial0 u)))
              @ visitedUrls0 (crawl0 newURL browse rootHostname MAX_PAGES (initial0 u))
              @ gotoTargets (events1 (crawl1 newURL browse rootHostname MAX_PAGES (initial1 u)))
              @ visitedUrls1 (crawl1 newURL browse rootHostname MAX_PAGES (initial1 u))).
        \<exists>p. newURL v = Some p \<and> url_hostname p = rootHostname
           \<and> spec_registrableDomain (url_hostname p) = spec_registrableDomain rootHostname)"
proof (intro conjI impI ballI)
  assume "urlsToVisit0 s0 = u0 # rest"
  then show "gotoTargets (events0 (crawlStep0 newURL browse rootHostname s0)) =
        gotoTargets (events0 s0)
        @ (if u0 = [] \<or> u0 \<in> set (visitedUrls0 s0) \<or> \<not> sameHost newURL rootHostname u0
           then [] else [u0])"
    by (rule crawlStep0_goto)
next
  assume "sort_key qi_priority (urlsToVisit1 s1) = item # rest1"
  then show "gotoTargets (events1 (crawlStep1 newURL browse rootHostname s1)) =
        gotoTargets (events1 s1)
        @ (if qi_url item \<in> set (visitedUrls1 s1) \<or> \<not> sameHost newURL rootHostname (qi_url item)
           then [] else [qi_url item])"
    by (rule crawlStep1_goto)
next
  fix v
  let ?r0 = "crawl0 newURL browse rootHostname MAX_PAGES (initial0 u)"
  let ?r1 = "crawl1 newURL browse rootHostname MAX_PAGES (initial1 u)"
  assume v: "v \<in> set (gotoTargets (events0 ?r0) @ visitedUrls0 ?r0 @ gotoTargets (events1 ?r1) @ visitedUrls1 ?r1)"
  have t0: "traced0 newURL rootHostname ?r0" by (rule crawl0_traced[OF initial_traced(1)])
  have t1: "traced1 newURL rootHostname ?r1" by (rule crawl1_traced[OF initial_traced(2)])
  have sub: "set (navigated es) \<subseteq> set (gotoTargets es)" for es
    by (induction es rule: navigated.induct) auto
  have "set (visitedUrls0 ?r0) \<subseteq> set (gotoTargets (events0 ?r0))"
    using t0 sub[of "events0 ?r0"] by (simp add: traced0_def)
  moreover have "set (visitedUrls1 ?r1) \<subseteq> set (gotoTargets (events1 ?r1))"
    using t1 sub[of "events1 ?r1"] by (simp add: traced1_def)
  ultimately have "v \<in> set (gotoTargets (events0 ?r0)) \<or> v \<in> set (gotoTargets (events1 ?r1))"
    using v by auto
  then have "sameHost newURL rootHostname v"
    using t0 t1 by (auto simp: traced0_def traced1_def list_all_iff)
  then show "\<exists>p. newURL v = Some p \<and> url_hostname p = rootHostname
           \<and> spec_registrableDomain (url_hostname p) = spec_registrableDomain rootHostname"
    by (rule sameHost_registrable)
qed

text \<open>
  The claim as stated fails on the subdomain: \<^verbatim>\<open>ads.example.com\<close> has the registrable
  domain of \<^verbatim>\<open>www.example.com\<close>, and still the iteration that dequeues
  \<^verbatim>\<open>https://ads.example.com/\<close> skips it without navigating, in both servers; a crawl of
  \<^verbatim>\<open>www.example.com\<close> whose entry page links to it visits the entry page and the
  \<^verbatim>\<open>about\<close> page only.
\<close>

theorem same_host_visiting_counterexample:
  "spec_registrableDomain ''ads.example.com'' = spec_registrableDomain ''www.example.com''
   \<and> crawlStep0 exampleURL exampleBrowse ''www.example.com''
        \<lparr>urlsToVisit0 = [''https://ads.example.com/''], visitedUrls0 = [''https://www.example.com/''],
         events0 = [], tick0 = 1\<rparr>
      = \<lparr>urlsToVisit0 = [], visitedUrls0 = [''https://www.example.com/''], events0 = [], tick0 = 2\<rparr>
   \<and> crawlStep1 exampleURL exampleBrowse ''www.example.com''
        \<lparr>urlsToVisit1 = [\<lparr>qi_url = ''https://ads.example.com/'', qi_priority = 2\<rparr>],
         visitedUrls1 = [''https://www.example.com/''], events1 = [], tick1 = 1\<rparr>
      = \<lparr>urlsToVisit1 = [], visitedUrls1 = [''https://www.example.com/''], events1 = [], tick1 = 2\<rparr>
   \<and> visitedUrls0 (crawl0 exampleURL exampleBrowse ''www.example.com'' 10
        (initial0 ''https://www.example.com/''))
      = [''https://www.example.com/'', ''https://www.example.com/about'']
   \<and> visitedUrls1 (crawl1 exampleURL exampleBrowse ''www.example.com'' 10
        (initial1 ''https://www.example.com/''))
      = [''https://www.example.com/'', ''https://www.example.com/about'']"
  by code_simp

theorem same_host_visiting_witness:
  "urlsToVisit0 \<lparr>urlsToVisit0 = [''https://ads.example.com/''],
        visitedUrls0 = [''https://www.example.com/''], events0 = [], tick0 = 1\<rparr>
     = ''https://ads.example.com/'' # []
   \<and> gotoTargets (events0 (crawlStep0 exampleURL exampleBrowse ''www.example.com''
        \<lparr>urlsToVisit0 = [''https://ads.example.com/''],
         visitedUrls0 = [''https://www.example.com/''], events0 = [], tick0 = 1\<rparr>)) = []
   \<and> sort_key qi_priority (urlsToVisit1 (initial1 ''https://www.example.com/''))
     = \<lparr>qi_url = ''https://www.example.com/'', qi_priority = 0\<rparr> # []
   \<and> gotoTargets (events1 (crawlStep1 exampleURL exampleBrowse ''www.example.com''
        (initial1 ''https://www.example.com/''))) = [''https://www.example.com/'']
   \<and> ''https://www.example.com/about'' \<in> set (visitedUrls0
        (crawl0 exampleURL exampleBrowse ''www.example.com'' 10 (initial0 ''https://www.example.com/'')))
   \<and> (\<exists>p. exampleURL ''https://www.example.com/about'' = Some p
          \<and> url_hostname p = ''www.example.com''
          \<and> spec_registrableDomain (url_hostname p) = spec_registrableDomain ''www.example.com'')"
  using same_host_visiting[where ?s0.0 = "\<lparr>urlsToVisit0 = [''https://ads.example.com/''],
        visitedUrls0 = [''https://www.example.com/''], events0 = [], tick0 = 1\<rparr>"
      and ?u0.0 = "''https://ads.example.com/''" and rest = "[]"
      and newURL = exampleURL and browse = exampleBrowse and rootHostname = "''www.example.com''"
      and ?s1.0 = "initial1 ''https://www.example.com/''"
      and item = "\<lparr>qi_url = ''https://www.example.com/'', qi_priority = 0\<rparr>" and ?rest1.0 = "[]"
      and MAX_PAGES = 10 and u = "''https://www.example.com/''"]
  by (simp add: example_crawl0 example_crawl1 sameHost_def exampleURL_def initial1_def)

end
